theory Spec2Isabelle
  imports Complex_Main "HOL-Library.Char_ord" "HOL-Library.List_Lexorder" "HOL-Library.FSet"
begin

section \<open>Python strings\<close>

text \<open>
  A Python \<open>str\<close> is modelled as a \<open>string\<close> (a list of \<open>char\<close>): one \<open>char\<close> per
  code point, for texts whose code points lie below 256. \<open>isspace\<close> is the whitespace
  test of \<open>str.strip()\<close> and \<open>str.isspace()\<close> on that range: the code points 9 to 13,
  28 to 32, 133 and 160.
\<close>

definition isspace :: "char \<Rightarrow> bool" where
  "isspace c = (let n = (of_char c :: nat) in
     (9 \<le> n \<and> n \<le> 13) \<or> (28 \<le> n \<and> n \<le> 32) \<or> n = 133 \<or> n = 160)"

text \<open>\<open>s.strip()\<close>: leading and trailing whitespace removed.\<close>

definition strip :: "string \<Rightarrow> string" where
  "strip s = rev (dropWhile isspace (rev (dropWhile isspace s)))"

text \<open>
  \<open>xs[i:j]\<close> with Python's rules: a negative index counts from the end, both indices
  are clamped to the length, and the slice is empty when it ends before it starts.
\<close>

definition slice :: "'a list \<Rightarrow> int \<Rightarrow> int \<Rightarrow> 'a list" where
  "slice xs i j =
     (let n = int (length xs);
          i' = (if i < 0 then max (i + n) 0 else min i n);
          j' = (if j < 0 then max (j + n) 0 else min j n)
      in take (nat (j' - i')) (drop (nat i') xs))"

section \<open>indexer_vision.py: the character splitter\<close>

definition CHUNK_SIZE :: int where
  "CHUNK_SIZE = 1000"

definition CHUNK_OVERLAP :: int where
  "CHUNK_OVERLAP = 200"

text \<open>
  The \<open>while start_index < len(text)\<close> loop of \<open>recursive_character_text_splitter\<close>,
  with the loop variables \<open>start_index\<close> and \<open>chunks\<close> as arguments. The loop does not
  end for every pair of parameters (with \<open>chunk_size = chunk_overlap\<close> the cursor never
  moves), so it is a partial function: \<open>None\<close> is a run that never returns.
\<close>

partial_function (option) splitter_loop ::
  "string \<Rightarrow> int \<Rightarrow> int \<Rightarrow> int \<Rightarrow> string list \<Rightarrow> string list option" where
  "splitter_loop text chunk_size chunk_overlap start_index chunks =
     (if start_index < int (length text) then
        (let end_index = min (start_index + chunk_size) (int (length text));
             chunks' = chunks @ [slice text start_index end_index];
             start_index' = start_index + (chunk_size - chunk_overlap)
         in if start_index' \<ge> end_index then
              (if start_index' < int (length text)
               then splitter_loop text chunk_size chunk_overlap end_index chunks'
               else Some chunks')
            else splitter_loop text chunk_size chunk_overlap start_index' chunks')
      else Some chunks)"

declare splitter_loop.simps [code]

text \<open>
  \<open>recursive_character_text_splitter(text, chunk_size, chunk_overlap)\<close>: a text no longer
  than the window is returned as it is, before the loop and before the final filter;
  otherwise the loop's chunks are filtered by \<open>chunk.strip()\<close>.
\<close>

definition recursive_character_text_splitter ::
  "string \<Rightarrow> int \<Rightarrow> int \<Rightarrow> string list option" where
  "recursive_character_text_splitter text chunk_size chunk_overlap =
     (if int (length text) \<le> chunk_size then Some [text]
      else map_option (filter (\<lambda>chunk. strip chunk \<noteq> []))
             (splitter_loop text chunk_size chunk_overlap 0 []))"

text \<open>
  The windows the loop visits with the default parameters: the window starting at
  \<open>s + 800 * k\<close>, for every \<open>k\<close> with \<open>s + 800 * k < length text\<close>.
\<close>

definition windows_from :: "string \<Rightarrow> nat \<Rightarrow> string list" where
  "windows_from text s =
     map (\<lambda>k. take 1000 (drop (s + 800 * k) text)) [0..<(length text - s + 799) div 800]"

text \<open>
  The spec's "overlap-trimmed chunks", concatenated: the first chunk whole, every later
  chunk without its first \<open>overlap\<close> characters.
\<close>

definition overlap_trimmed_concat :: "nat \<Rightarrow> string list \<Rightarrow> string" where
  "overlap_trimmed_concat overlap chunks =
     (case chunks of [] \<Rightarrow> [] | c # cs \<Rightarrow> c @ concat (map (drop overlap) cs))"

text \<open>\<open>ceil(a / b)\<close> on natural numbers.\<close>

definition ceil_div :: "nat \<Rightarrow> nat \<Rightarrow> nat" where
  "ceil_div a b = (a + b - 1) div b"

section \<open>The splitter: lemmas\<close>

lemma slice_window:
  assumes "s < length text"
  shows "slice text (int s) (min (int s + 1000) (int (length text))) = take 1000 (drop s text)"
proof -
  have "nat (min (int s + 1000) (int (length text)) - int s) = min 1000 (length text - s)"
    using assms by (auto simp: min_def)
  moreover have "take (min 1000 (length text - s)) (drop s text) = take 1000 (drop s text)"
    by (simp add: min_def)
  moreover have "min (int s) (int (length text)) = int s"
    using assms by simp
  moreover have "min (min (int s + 1000) (int (length text))) (int (length text)) =
                 min (int s + 1000) (int (length text))"
    by simp
  ultimately show ?thesis
    by (simp add: slice_def Let_def)
qed

lemma windows_from_done: "length text \<le> s \<Longrightarrow> windows_from text s = []"
  by (simp add: windows_from_def)

lemma windows_from_step:
  assumes "s < length text"
  shows "windows_from text s = take 1000 (drop s text) # windows_from text (s + 800)"
proof -
  have cnt: "(length text - s + 799) div 800 = Suc ((length text - (s + 800) + 799) div 800)"
    using assms by (cases "length text \<le> s + 800") (auto simp: div_eq_0_iff le_div_geq)
  have "map (\<lambda>k. take 1000 (drop (s + 800 * k) text)) [0..<Suc m] =
        take 1000 (drop s text) # map (\<lambda>k. take 1000 (drop (s + 800 + 800 * k) text)) [0..<m]" for m
    by (simp only: map_upt_Suc) (simp add: add.assoc)
  then show ?thesis
    by (simp only: windows_from_def cnt)
qed

lemma splitter_loop_default:
  "splitter_loop text 1000 200 (int s) acc = Some (acc @ windows_from text s)"
proof (induction "length text - s" arbitrary: s acc rule: less_induct)
  case less
  show ?case
  proof (cases "s < length text")
    case False
    then show ?thesis
      by (subst splitter_loop.simps) (simp add: windows_from_done)
  next
    case True
    note inside = True
    note sl = slice_window [OF inside]
    note ws = windows_from_step [OF inside]
    have eq: "int s + (1000 - 200) = int (s + 800)"
      by simp
    show ?thesis
    proof (cases "length text \<le> s + 800")
      case True
      then have w: "windows_from text (s + 800) = []"
        by (rule windows_from_done)
      show ?thesis
        apply (subst splitter_loop.simps)
        apply (simp only: Let_def sl eq ws w)
        using inside True apply simp
        done
    next
      case False
      then have "length text - (s + 800) < length text - s"
        by simp
      then have ih: "splitter_loop text 1000 200 (int (s + 800)) acc' =
                Some (acc' @ windows_from text (s + 800))" for acc'
        by (rule less)
      have ge: "\<not> min (int s + 1000) (int (length text)) \<le> int (s + 800)"
        using False by (simp add: min_def)
      show ?thesis
        apply (subst splitter_loop.simps)
        apply (simp only: Let_def sl eq ih ws ge if_False)
        using inside apply simp
        done
    qed
  qed
qed

lemma splitter_default_long:
  assumes "1000 < length text"
  shows "recursive_character_text_splitter text CHUNK_SIZE CHUNK_OVERLAP =
         Some (filter (\<lambda>chunk. strip chunk \<noteq> []) (windows_from text 0))"
  using assms splitter_loop_default [of _ 0 "[]"]
  by (simp add: recursive_character_text_splitter_def CHUNK_SIZE_def CHUNK_OVERLAP_def)

lemma strip_eq_Nil_iff: "strip s = [] \<longleftrightarrow> (\<forall>c\<in>set s. isspace c)"
proof
  assume "strip s = []"
  then have all: "\<forall>c\<in>set (dropWhile isspace s). isspace c"
    by (simp add: strip_def dropWhile_eq_Nil_conv)
  have "dropWhile isspace s = []"
  proof (rule ccontr)
    assume ne: "dropWhile isspace s \<noteq> []"
    then have "\<not> isspace (hd (dropWhile isspace s))"
      by (rule hd_dropWhile)
    moreover from ne have "hd (dropWhile isspace s) \<in> set (dropWhile isspace s)"
      by (rule hd_in_set)
    ultimately show False
      using all by blast
  qed
  then show "\<forall>c\<in>set s. isspace c"
    by (simp add: dropWhile_eq_Nil_conv)
next
  assume "\<forall>c\<in>set s. isspace c"
  then have d: "dropWhile isspace s = []"
    by (simp add: dropWhile_eq_Nil_conv)
  show "strip s = []"
    by (simp only: strip_def d rev.simps dropWhile.simps)
qed

lemma length_windows_from_0: "length (windows_from text 0) = ceil_div (length text) 800"
  by (simp add: windows_from_def ceil_div_def)

lemma drop_overlap_window: "drop 200 (take 1000 (drop (800 + 800 * k) text)) = take 800 (drop (800 * k) (drop 1000 text))"
  by (simp add: drop_take ac_simps)

lemma concat_blocks:
  "concat (map (\<lambda>k. take n (drop (n * k) xs)) [0..<m]) = take (n * m) xs"
proof (induction m)
  case 0
  show ?case by simp
next
  case (Suc m)
  have "take (n * m) xs @ take n (drop (n * m) xs) = take (n * m + n) xs"
    by (simp add: take_add)
  with Suc show ?case
    by (simp add: add.commute)
qed

lemma overlap_trimmed_windows:
  assumes "1000 < length text"
  shows "overlap_trimmed_concat 200 (windows_from text 0) = text"
proof -
  define m where "m = (length text - 800 + 799) div 800"
  have "0 < length text"
    using assms by linarith
  from windows_from_step [OF this]
  have w0: "windows_from text 0 = take 1000 text # windows_from text 800"
    by simp
  have "map (drop 200) (windows_from text 800) =
        map (\<lambda>k. take 800 (drop (800 * k) (drop 1000 text))) [0..<m]"
    unfolding windows_from_def m_def map_map comp_def drop_overlap_window ..
  then have "concat (map (drop 200) (windows_from text 800)) = take (800 * m) (drop 1000 text)"
    by (simp only: concat_blocks)
  moreover have "length text - 1000 \<le> 800 * m"
    unfolding m_def using assms by linarith
  ultimately have "concat (map (drop 200) (windows_from text 800)) = drop 1000 text"
    by simp
  with w0 show ?thesis
    by (simp add: overlap_trimmed_concat_def)
qed

lemma isspace_space [simp]: "isspace (CHR '' '')"
  by (simp add: isspace_def)

lemma not_isspace_a [simp]: "\<not> isspace (CHR ''a'')"
  by (simp add: isspace_def)

lemma not_isspace_b [simp]: "\<not> isspace (CHR ''b'')"
  by (simp add: isspace_def)

lemma windows_1700:
  "windows_from (replicate 1700 (CHR ''a'')) 0 =
     [replicate 1000 (CHR ''a''), replicate 900 (CHR ''a''), replicate 100 (CHR ''a'')]"
proof -
  have "[0..<3] = [0, 1, 2]"
    by (simp add: upt_rec)
  then show ?thesis
    by (simp add: windows_from_def)
qed

lemma split_1700:
  "recursive_character_text_splitter (replicate 1700 (CHR ''a'')) CHUNK_SIZE CHUNK_OVERLAP =
     Some [replicate 1000 (CHR ''a''), replicate 900 (CHR ''a''), replicate 100 (CHR ''a'')]"
  by (simp add: splitter_default_long windows_1700 strip_eq_Nil_iff)

lemma windows_1900:
  "windows_from (replicate 800 (CHR ''a'') @ replicate 1000 (CHR '' '') @ replicate 100 (CHR ''b'')) 0 =
     [replicate 800 (CHR ''a'') @ replicate 200 (CHR '' ''),
      replicate 1000 (CHR '' ''),
      replicate 200 (CHR '' '') @ replicate 100 (CHR ''b'')]"
proof -
  have "[0..<3] = [0, 1, 2]"
    by (simp add: upt_rec)
  then show ?thesis
    by (simp add: windows_from_def)
qed

lemma split_1900:
  "recursive_character_text_splitter
     (replicate 800 (CHR ''a'') @ replicate 1000 (CHR '' '') @ replicate 100 (CHR ''b''))
     CHUNK_SIZE CHUNK_OVERLAP =
   Some [replicate 800 (CHR ''a'') @ replicate 200 (CHR '' ''),
         replicate 200 (CHR '' '') @ replicate 100 (CHR ''b'')]"
  by (simp add: splitter_default_long windows_1900 strip_eq_Nil_iff)

section \<open>The splitter: claims\<close>

text \<open>
  C1, as the claim states it, fails twice. The loop runs while the cursor is inside the
  text, so a text of 1700 characters gives three chunks (the last lies wholly inside the
  overlap of the second) where the claim's formula gives two. And the final filter drops
  a whitespace-only window, after which the overlap-trimmed chunks no longer add up to
  the text.
\<close>

theorem splitter_long_counterexample:
  "map_option length
     (recursive_character_text_splitter (replicate 1700 (CHR ''a'')) CHUNK_SIZE CHUNK_OVERLAP) = Some 3 \<and>
   ceil_div (1700 - 200) (1000 - 200) = 2 \<and>
   map_option (overlap_trimmed_concat 200)
     (recursive_character_text_splitter
        (replicate 800 (CHR ''a'') @ replicate 1000 (CHR '' '') @ replicate 100 (CHR ''b''))
        CHUNK_SIZE CHUNK_OVERLAP) \<noteq>
   Some (replicate 800 (CHR ''a'') @ replicate 1000 (CHR '' '') @ replicate 100 (CHR ''b''))"
proof -
  have "length (replicate 800 (CHR ''a'') @ replicate 200 (CHR '' '') @ replicate 100 (CHR ''b'')) \<noteq>
        length (replicate 800 (CHR ''a'') @ replicate 1000 (CHR '' '') @ replicate 100 (CHR ''b''))"
    by simp
  then have "replicate 800 (CHR ''a'') @ replicate 200 (CHR '' '') @ replicate 100 (CHR ''b'') \<noteq>
        replicate 800 (CHR ''a'') @ replicate 1000 (CHR '' '') @ replicate 100 (CHR ''b'')"
    by metis
  then show ?thesis
    by (simp add: split_1700 split_1900 ceil_div_def overlap_trimmed_concat_def)
qed

text \<open>
  C1, amended: for every text longer than 1000 characters none of whose windows
  \<open>text[800 * k : 800 * k + 1000]\<close>, \<open>k < ceil(len / 800)\<close>, is whitespace-only, the splitter
  returns chunks whose overlap-trimmed concatenation is the text, and their number is
  \<open>ceil(len / (window - overlap))\<close>.
\<close>

theorem splitter_long_reconstructs:
  assumes "1000 < length text"
    and "\<forall>k<ceil_div (length text) 800. strip (take 1000 (drop (800 * k) text)) \<noteq> []"
  shows "\<exists>chunks. recursive_character_text_splitter text CHUNK_SIZE CHUNK_OVERLAP = Some chunks \<and>
           overlap_trimmed_concat 200 chunks = text \<and>
           length chunks = ceil_div (length text) 800"
proof -
  have "\<forall>w\<in>set (windows_from text 0). strip w \<noteq> []"
    using assms(2) by (auto simp: windows_from_def ceil_div_def)
  then have "filter (\<lambda>chunk. strip chunk \<noteq> []) (windows_from text 0) = windows_from text 0"
    by simp
  with splitter_default_long [OF assms(1)]
  have "recursive_character_text_splitter text CHUNK_SIZE CHUNK_OVERLAP = Some (windows_from text 0)"
    by simp
  with overlap_trimmed_windows [OF assms(1)] length_windows_from_0 [of "text"]
  show ?thesis
    by simp
qed

theorem splitter_long_reconstructs_witness:
  "\<exists>chunks. recursive_character_text_splitter (replicate 1700 (CHR ''a'')) CHUNK_SIZE CHUNK_OVERLAP
       = Some chunks \<and>
     overlap_trimmed_concat 200 chunks = replicate 1700 (CHR ''a'') \<and>
     length chunks = 3"
proof -
  have "(1000::nat) < length (replicate 1700 (CHR ''a''))"
    by simp
  moreover have "\<forall>k<ceil_div (length (replicate 1700 (CHR ''a''))) 800.
       strip (take 1000 (drop (800 * k) (replicate 1700 (CHR ''a'')))) \<noteq> []"
    by (simp add: ceil_div_def strip_eq_Nil_iff)
  ultimately have "\<exists>chunks. recursive_character_text_splitter (replicate 1700 (CHR ''a'')) CHUNK_SIZE CHUNK_OVERLAP = Some chunks \<and>
           overlap_trimmed_concat 200 chunks = replicate 1700 (CHR ''a'') \<and>
           length chunks = ceil_div (length (replicate 1700 (CHR ''a''))) 800"
    by (rule splitter_long_reconstructs)
  then show ?thesis
    by (simp add: ceil_div_def)
qed

section \<open>rag_exam_solver.py: the output file name\<close>

text \<open>
  \<open>str.isalnum()\<close> of one character, on the code points below 256: the ASCII digits and
  letters, the letters of the Latin-1 block, and its superscript digits and fractions.
\<close>

definition isalnum :: "char \<Rightarrow> bool" where
  "isalnum c = (let n = (of_char c :: nat) in
     (48 \<le> n \<and> n \<le> 57) \<or> (65 \<le> n \<and> n \<le> 90) \<or> (97 \<le> n \<and> n \<le> 122) \<or>
     n = 170 \<or> n = 178 \<or> n = 179 \<or> n = 181 \<or> n = 185 \<or> n = 186 \<or>
     (188 \<le> n \<and> n \<le> 190) \<or> (192 \<le> n \<and> n \<le> 214) \<or> (216 \<le> n \<and> n \<le> 246) \<or>
     248 \<le> n)"

text \<open>\<open>s.strip(chars)\<close>: the characters of \<open>chars\<close> removed from both ends.\<close>

definition strip_chars :: "string \<Rightarrow> string \<Rightarrow> string" where
  "strip_chars chars s =
     rev (dropWhile (\<lambda>c. c \<in> set chars) (rev (dropWhile (\<lambda>c. c \<in> set chars) s)))"

text \<open>The generator expression of \<open>save_output\<close>: \<open>c if c.isalnum() else "_"\<close>.\<close>

definition sanitize_char :: "char \<Rightarrow> char" where
  "sanitize_char c = (if isalnum c then c else CHR ''_'')"

text \<open>
  \<open>safe_filename\<close> as \<open>save_output\<close> computes it: the first 50 characters of the query
  (\<open>query[:50]\<close>), sanitized, then stripped of underscores at both ends, and
  \<open>"rag_output"\<close> when nothing is left.
\<close>

definition safe_filename :: "string \<Rightarrow> string" where
  "safe_filename query =
     (let safe = strip_chars ''_'' (map sanitize_char (take 50 query))
      in if safe = [] then ''rag_output'' else safe)"

definition output_file :: "string \<Rightarrow> string" where
  "output_file query = safe_filename query @ ''.json''"

text \<open>
  The derivation in the spec's words: every non-alphanumeric character replaced by an
  underscore, then truncated to 50 characters.
\<close>

definition spec_filename :: "string \<Rightarrow> string" where
  "spec_filename query = take 50 (map sanitize_char query)"


lemma rev_dropWhile_takeWhile:
  "rev (dropWhile P (rev xs)) @ rev (takeWhile P (rev xs)) = xs"
proof -
  have "rev (takeWhile P (rev xs) @ dropWhile P (rev xs)) = xs"
    by (simp only: takeWhile_dropWhile_id rev_rev_ident)
  then show ?thesis
    by (simp only: rev_append)
qed

lemma strip_chars_decompose:
  "\<exists>i j. s = replicate i u @ strip_chars [u] s @ replicate j u"
proof -
  let ?P = "\<lambda>c. c \<in> set [u]"
  let ?d = "dropWhile ?P s"
  have a: "s = takeWhile ?P s @ ?d"
    by simp
  have "\<forall>y\<in>set (takeWhile ?P s). y = u"
    by (auto dest: set_takeWhileD)
  then have b: "takeWhile ?P s = replicate (length (takeWhile ?P s)) u"
    by (simp add: replicate_length_same)
  have c: "?d = strip_chars [u] s @ rev (takeWhile ?P (rev ?d))"
    unfolding strip_chars_def by (rule rev_dropWhile_takeWhile [symmetric])
  have "\<forall>y\<in>set (rev (takeWhile ?P (rev ?d))). y = u"
    by (auto dest: set_takeWhileD)
  then have e: "rev (takeWhile ?P (rev ?d)) = replicate (length (rev (takeWhile ?P (rev ?d)))) u"
    by (simp only: replicate_length_same)
  from a b c e show ?thesis
    by metis
qed

lemma strip_chars_ends:
  assumes "\<exists>c\<in>set s. c \<noteq> u"
  shows "strip_chars [u] s \<noteq> [] \<and> hd (strip_chars [u] s) \<noteq> u \<and> last (strip_chars [u] s) \<noteq> u"
proof -
  let ?P = "\<lambda>c. c \<in> set [u]"
  let ?d = "dropWhile ?P s"
  let ?e = "dropWhile ?P (rev ?d)"
  from assms have d: "?d \<noteq> []"
    by (auto simp: dropWhile_eq_Nil_conv)
  then have hd_d: "\<not> ?P (hd ?d)"
    by (rule hd_dropWhile)
  from d have "hd ?d \<in> set (rev ?d)"
    by simp
  with hd_d have e: "?e \<noteq> []"
    by (auto simp: dropWhile_eq_Nil_conv)
  then have hd_e: "\<not> ?P (hd ?e)"
    by (rule hd_dropWhile)
  have s: "strip_chars [u] s = rev ?e"
    by (simp add: strip_chars_def)
  have "?d = rev ?e @ rev (takeWhile ?P (rev ?d))"
    by (rule rev_dropWhile_takeWhile [symmetric])
  with e have "hd ?d = hd (rev ?e)"
    by (metis hd_append2 rev_is_Nil_conv)
  with hd_d hd_e e s show ?thesis
    by (simp add: last_rev)
qed


lemma sanitize_char_underscore: "sanitize_char c \<noteq> CHR ''_'' \<Longrightarrow> isalnum c \<and> sanitize_char c = c"
  by (simp add: sanitize_char_def split: if_splits)

lemma not_isalnum_underscore: "\<not> isalnum (CHR ''_'')"
  by (simp add: isalnum_def)

text \<open>
  C8, as the claim states it, fails: \<open>save_output\<close> also strips the underscores at both
  ends (\<open>.strip("_")\<close>), so \<open>"a b!"\<close> is saved as \<open>a_b\<close> and not as \<open>a_b_\<close>, and the
  default name is used for \<open>"?!"\<close>, whose derivation in the claim's words is the
  non-empty \<open>__\<close>.
\<close>

theorem safe_filename_counterexample:
  "safe_filename ''a b!'' = ''a_b'' \<and> spec_filename ''a b!'' = ''a_b_'' \<and>
   safe_filename ''?!'' = ''rag_output'' \<and> spec_filename ''?!'' = ''__''"
  by (simp add: safe_filename_def spec_filename_def strip_chars_def sanitize_char_def isalnum_def)

text \<open>
  C8, amended: replacing and truncating commute; the file name is the sanitized first
  50 characters of the query without their leading and trailing underscores, so it
  starts and ends with an alphanumeric character; and the default name is used when
  none of the first 50 characters is alphanumeric (which is when nothing is left after
  the stripping).
\<close>

theorem safe_filename_stripped:
  "spec_filename query = map sanitize_char (take 50 query) \<and>
   ((\<forall>c\<in>set (take 50 query). \<not> isalnum c) \<longrightarrow> safe_filename query = ''rag_output'') \<and>
   ((\<exists>c\<in>set (take 50 query). isalnum c) \<longrightarrow>
      (\<exists>i j. spec_filename query =
                replicate i (CHR ''_'') @ safe_filename query @ replicate j (CHR ''_'')) \<and>
      safe_filename query \<noteq> [] \<and>
      isalnum (hd (safe_filename query)) \<and> isalnum (last (safe_filename query)))"
proof (intro conjI impI)
  show sp: "spec_filename query = map sanitize_char (take 50 query)"
    by (simp add: spec_filename_def take_map)
  let ?d = "map sanitize_char (take 50 query)"
  {
    assume "\<forall>c\<in>set (take 50 query). \<not> isalnum c"
    then have "\<forall>c\<in>set ?d. c \<in> set ''_''"
      by (simp add: sanitize_char_def)
    then have "dropWhile (\<lambda>c. c \<in> set ''_'') ?d = []"
      by (simp only: dropWhile_eq_Nil_conv)
    then have "strip_chars ''_'' ?d = []"
      by (simp only: strip_chars_def rev.simps dropWhile.simps)
    then show "safe_filename query = ''rag_output''"
      by (simp add: safe_filename_def)
  }
  assume "\<exists>c\<in>set (take 50 query). isalnum c"
  then obtain c where c: "c \<in> set (take 50 query)" "isalnum c"
    by blast
  then have "sanitize_char c \<in> set ?d" "sanitize_char c \<noteq> CHR ''_''"
    using not_isalnum_underscore by (auto simp: sanitize_char_def)
  then have "\<exists>c\<in>set ?d. c \<noteq> CHR ''_''"
    by blast
  from strip_chars_ends [OF this]
  have ne: "strip_chars ''_'' ?d \<noteq> []"
    and h: "hd (strip_chars ''_'' ?d) \<noteq> CHR ''_''"
    and l: "last (strip_chars ''_'' ?d) \<noteq> CHR ''_''"
    by simp_all
  from ne have sf: "safe_filename query = strip_chars ''_'' ?d"
    by (simp add: safe_filename_def)
  from ne show "safe_filename query \<noteq> []"
    by (simp add: sf)
  from strip_chars_decompose [of ?d "CHR ''_''"]
  obtain i j where dec: "?d = replicate i (CHR ''_'') @ strip_chars ''_'' ?d @ replicate j (CHR ''_'')"
    by blast
  then show "\<exists>i j. spec_filename query =
                replicate i (CHR ''_'') @ safe_filename query @ replicate j (CHR ''_'')"
    unfolding sp sf by blast
  have sub: "set (strip_chars ''_'' ?d) \<subseteq> set ?d"
    by (subst (2) dec) auto
  have alnum: "x \<in> set ?d \<Longrightarrow> x \<noteq> CHR ''_'' \<Longrightarrow> isalnum x" for x
    by (auto simp: sanitize_char_def split: if_splits)
  from ne have "hd (strip_chars ''_'' ?d) \<in> set ?d" "last (strip_chars ''_'' ?d) \<in> set ?d"
    using sub by auto
  with h l show "isalnum (hd (safe_filename query))" "isalnum (last (safe_filename query))"
    unfolding sf by (blast intro: alnum)+
qed

theorem safe_filename_stripped_witness:
  "safe_filename ''?!'' = ''rag_output'' \<and>
   safe_filename ''a b!'' \<noteq> [] \<and>
   (\<exists>i j. spec_filename ''a b!'' =
        replicate i (CHR ''_'') @ safe_filename ''a b!'' @ replicate j (CHR ''_''))"
proof -
  have "\<forall>c\<in>set (take 50 ''?!''). \<not> isalnum c"
    by (simp add: isalnum_def)
  moreover have "\<exists>c\<in>set (take 50 ''a b!''). isalnum c"
    by (simp add: isalnum_def)
  ultimately show ?thesis
    using safe_filename_stripped [of "''?!''"] safe_filename_stripped [of "''a b!''"]
    by blast
qed

section \<open>The external services\<close>

text \<open>
  The scripts call the embedding API, the generative API and the vector store. Each call
  is a field of the environment; a call that raises is \<open>None\<close> (or the \<open>Raised\<close> outcome).
  The calls are numbered, so that two calls with the same text may end differently.
\<close>

type_synonym embedding = "real list"

text \<open>
  One metadata dictionary of the vector store, by the keys the scripts read; a missing key
  is \<open>None\<close>.
\<close>

record metadata =
  source_file :: "string option"
  source_page :: "nat option"
  visual_descriptions :: "string option"
  table_descriptions :: "string option"
  equation_descriptions :: "string option"

text \<open>
  The result of \<open>collection.query\<close> for the single query embedding: the inner lists
  \<open>results['ids'][0]\<close>, \<open>results['documents'][0]\<close>, \<open>results['metadatas'][0]\<close> and
  \<open>results['distances'][0]\<close>. A distance is held as \<open>{dist:.4f}\<close> renders it.
\<close>

record query_results =
  ids :: "string list"
  documents :: "string list"
  metadatas :: "metadata list"
  distances :: "string list"

text \<open>
  What the code can see of a call to \<open>generate_content\<close>: the call raised; the call
  returned and reading the response raised later (with the response's prompt feedback,
  if any); the response has a \<open>text\<close>; it has \<open>parts\<close>; its first candidate has parts;
  or none of these.
\<close>

datatype gen_outcome =
    CallRaised string
  | ReadRaised string "string option"
  | HasText string
  | HasParts "string list"
  | HasCandidateParts "string list"
  | NoText

record environment =
  GOOGLE_API_KEY :: "string option"
  genai_configure :: "string \<Rightarrow> bool"
  get_collection :: "string \<Rightarrow> string \<Rightarrow> bool"
  embed_content :: "nat \<Rightarrow> string \<Rightarrow> embedding option"
  collection_query :: "embedding \<Rightarrow> int \<Rightarrow> query_results option"
  generate_content :: "nat \<Rightarrow> string \<Rightarrow> gen_outcome"

text \<open>A process that ends in \<open>sys.exit(n)\<close> is \<open>Inl n\<close>.\<close>

definition configure_api :: "environment \<Rightarrow> int + unit" where
  "configure_api env =
     (case GOOGLE_API_KEY env of
        None \<Rightarrow> Inl 1
      | Some api_key \<Rightarrow>
          if api_key = [] then Inl 1
          else if genai_configure env api_key then Inr () else Inl 1)"

definition connect_to_chroma :: "environment \<Rightarrow> string \<Rightarrow> string \<Rightarrow> int + unit" where
  "connect_to_chroma env chroma_path collection_name =
     (if get_collection env chroma_path collection_name then Inr () else Inl 1)"

text \<open>\<open>str(n)\<close> for a natural number.\<close>

fun str_nat :: "nat \<Rightarrow> string" where
  "str_nat n =
     (if n < 10 then [char_of (48 + n)]
      else str_nat (n div 10) @ [char_of (48 + n mod 10)])"


section \<open>rag_exam_solver.py\<close>

text \<open>\<open>embed_query\<close> of the solver: a failed embedding call ends the process.\<close>

definition embed_query :: "environment \<Rightarrow> string \<Rightarrow> int + embedding" where
  "embed_query env query_text =
     (case embed_content env 0 query_text of
        Some embedding \<Rightarrow> Inr embedding
      | None \<Rightarrow> Inl 1)"

text \<open>\<open>query_chroma\<close> of the solver: \<open>None\<close> when the query raises.\<close>

definition query_chroma :: "environment \<Rightarrow> embedding \<Rightarrow> int \<Rightarrow> query_results option" where
  "query_chroma env query_embedding n_results = collection_query env query_embedding n_results"

text \<open>
  \<open>meta.get('source_page', 'N/A')\<close> inside an f-string, and the same for the source file.
\<close>

definition page_str :: "metadata \<Rightarrow> string" where
  "page_str meta = (case source_page meta of None \<Rightarrow> ''N/A'' | Some p \<Rightarrow> str_nat p)"

definition file_str :: "metadata \<Rightarrow> string" where
  "file_str meta = (case source_file meta of None \<Rightarrow> ''N/A'' | Some f \<Rightarrow> f)"

text \<open>
  One description of a chunk, added when \<open>desc and desc.strip()\<close> holds. The two scripts
  differ in the emphasis mark around the label only (none in the solver, \<open>*\<close> in the guide
  generator).
\<close>

definition description_block :: "string \<Rightarrow> string \<Rightarrow> metadata \<Rightarrow> string option \<Rightarrow> string" where
  \<open>description_block mark label meta desc =
     (case desc of
        None \<Rightarrow> []
      | Some d \<Rightarrow>
          if d \<noteq> [] \<and> strip d \<noteq> []
          then mark @ label @ '' (from page '' @ page_str meta @ ''):'' @ mark @ ''\<newline>'' @ d @
               ''\<newline>\<newline>''
          else [])\<close>

text \<open>The body of the loop over \<open>enumerate(zip(documents, metadatas, distances))\<close>.\<close>

definition context_chunk :: "string \<Rightarrow> nat \<times> string \<times> metadata \<times> string \<Rightarrow> string" where
  \<open>context_chunk mark entry =
     (case entry of (i, doc, meta, distance) \<Rightarrow>
        ''--- Context Chunk '' @ str_nat (i + 1) @ '' (Source: '' @ file_str meta @
        '', Page: '' @ page_str meta @ '', Distance: '' @ distance @ '') ---\<newline>'' @
        ''Text Content:\<newline>'' @ doc @ ''\<newline>\<newline>'' @
        description_block mark ''Visual Elements Description'' meta (visual_descriptions meta) @
        description_block mark ''Table Content Summary'' meta (table_descriptions meta) @
        description_block mark ''Key Equations'' meta (equation_descriptions meta) @
        ''---\<newline>\<newline>'')\<close>

definition context_chunks :: "string \<Rightarrow> query_results \<Rightarrow> string" where
  "context_chunks mark results =
     (let entries = zip (documents results) (zip (metadatas results) (distances results))
      in concat (map (context_chunk mark) (zip [0..<length entries] entries)))"

text \<open>\<open>format_retrieved_context\<close> of the solver.\<close>

definition format_retrieved_context :: "query_results option \<Rightarrow> string" where
  \<open>format_retrieved_context results =
     (case results of
        None \<Rightarrow> ''No relevant context found in the knowledge base.''
      | Some r \<Rightarrow>
          if ids r = [] then ''No relevant context found in the knowledge base.''
          else strip (''Retrieved Context from Study Material:\<newline>\<newline>'' @ context_chunks [] r))\<close>

definition RAG_PROMPT_HEAD :: string where
  \<open>RAG_PROMPT_HEAD =
     ''You are an expert teaching assistant. Your task is to provide a clear, step-by-step explanation or guide to solve the following exam problem/topic, using ONLY the provided context from the study materials.\<newline>'' @
     ''\<newline>'' @
     ''Exam Problem/Topic:\<newline>'' @
     ''"""\<newline>''\<close>
definition RAG_PROMPT_MIDDLE :: string where
  \<open>RAG_PROMPT_MIDDLE =
     ''\<newline>'' @
     ''"""\<newline>'' @
     ''\<newline>'' @
     ''Relevant Context from Study Materials:\<newline>'' @
     ''"""\<newline>''\<close>
definition RAG_PROMPT_TAIL :: string where
  \<open>RAG_PROMPT_TAIL =
     ''\<newline>'' @
     ''"""\<newline>'' @
     ''\<newline>'' @
     ''Instructions:\<newline>'' @
     ''1.  Analyze the exam problem/topic.\<newline>'' @
     ''2.  Synthesize an explanation or a step-by-step guide using the provided context.\<newline>'' @
     ''3.  Explicitly reference the source file and page number (e.g., "According to Lecture 3, Page 5...") when using information from the context.\<newline>'' @
     ''4.  If the context includes descriptions of visuals, tables, or equations relevant to the problem, incorporate them into your explanation.\<newline>'' @
     ''5.  If the context does not contain sufficient information to fully answer, clearly state what information is missing or cannot be determined from the provided text. DO NOT MAKE UP INFORMATION.\<newline>'' @
     ''6.  Structure the answer clearly (e.g., use bullet points, numbered steps).\<newline>'' @
     ''\<newline>'' @
     ''Provide your explanation below:\<newline>''\<close>

definition construct_rag_prompt :: "string \<Rightarrow> string \<Rightarrow> string" where
  "construct_rag_prompt exam_query formatted_context =
     RAG_PROMPT_HEAD @ exam_query @ RAG_PROMPT_MIDDLE @ formatted_context @ RAG_PROMPT_TAIL"

text \<open>\<open>generate_explanation\<close> of the solver: every failure becomes an explanation text.\<close>

definition generate_explanation :: "environment \<Rightarrow> string \<Rightarrow> string" where
  "generate_explanation env prompt =
     (case generate_content env 0 prompt of
        CallRaised e \<Rightarrow> ''Error generating explanation: '' @ e
      | ReadRaised e feedback \<Rightarrow> ''Error generating explanation: '' @ e
      | HasText t \<Rightarrow> t
      | HasParts ps \<Rightarrow> concat ps
      | HasCandidateParts ps \<Rightarrow> concat ps
      | NoText \<Rightarrow> ''Error: Could not extract explanation from the response.'')"

record solver_args =
  arg_query :: string
  arg_chroma_path :: string
  arg_collection_name :: string
  arg_n_results :: int
  arg_output_dir :: string
  arg_no_save :: bool

text \<open>
  What a run of the solver that reaches its end has produced: the formatted context, the
  explanation, and the name of the JSON file it saved (none with \<open>--no_save\<close>).
\<close>

record solver_result =
  retrieved_context :: string
  generated_explanation :: string
  saved_file :: "string option"

definition solver_main :: "environment \<Rightarrow> solver_args \<Rightarrow> int + solver_result" where
  "solver_main env args =
     (case configure_api env of
        Inl status \<Rightarrow> Inl status
      | Inr _ \<Rightarrow>
     (case connect_to_chroma env (arg_chroma_path args) (arg_collection_name args) of
        Inl status \<Rightarrow> Inl status
      | Inr _ \<Rightarrow>
     (case embed_query env (arg_query args) of
        Inl status \<Rightarrow> Inl status
      | Inr query_embedding \<Rightarrow>
          (let retrieved_results = query_chroma env query_embedding (arg_n_results args);
               formatted_context = format_retrieved_context retrieved_results;
               rag_prompt = construct_rag_prompt (arg_query args) formatted_context;
               explanation = generate_explanation env rag_prompt
           in Inr \<lparr>retrieved_context = formatted_context,
                   generated_explanation = explanation,
                   saved_file = (if arg_no_save args then None else Some (output_file (arg_query args)))\<rparr>))))"


section \<open>create_exam_guide.py\<close>

text \<open>\<open>embed_query_async\<close>: the \<open>i\<close>-th embedding call; a call that raises gives \<open>None\<close>.\<close>

definition embed_query_async :: "environment \<Rightarrow> nat \<Rightarrow> string \<Rightarrow> embedding option" where
  "embed_query_async env i query_text = embed_content env i query_text"

text \<open>\<open>query_chroma\<close> of the guide generator: no query for a missing embedding.\<close>

definition guide_query_chroma ::
  "environment \<Rightarrow> embedding option \<Rightarrow> int \<Rightarrow> query_results option" where
  "guide_query_chroma env query_embedding n_results =
     (case query_embedding of
        None \<Rightarrow> None
      | Some e \<Rightarrow> collection_query env e n_results)"

text \<open>\<open>format_retrieved_context\<close> of the guide generator.\<close>

definition guide_format_retrieved_context :: "query_results option \<Rightarrow> string" where
  \<open>guide_format_retrieved_context results =
     (case results of
        None \<Rightarrow> ''No relevant context found in the local knowledge base.''
      | Some r \<Rightarrow>
          if ids r = [] then ''No relevant context found in the local knowledge base.''
          else strip (''Retrieved Context from Local Study Material:\<newline>\<newline>'' @
                      context_chunks ''*'' r))\<close>

definition AUGMENTED_PROMPT_HEAD :: string where
  \<open>AUGMENTED_PROMPT_HEAD =
     ''You are an expert teaching assistant creating a comprehensive study guide. Your task is to explain the following exam topic thoroughly, combining information from provided local documents with your own general knowledge.\<newline>'' @
     ''\<newline>'' @
     ''Exam Topic:\<newline>'' @
     ''"""\<newline>''\<close>
definition AUGMENTED_PROMPT_MIDDLE :: string where
  \<open>AUGMENTED_PROMPT_MIDDLE =
     ''\<newline>'' @
     ''"""\<newline>'' @
     ''\<newline>'' @
     ''Relevant Context Retrieved from Local Study Materials:\<newline>'' @
     ''"""\<newline>''\<close>
definition AUGMENTED_PROMPT_TAIL :: string where
  \<open>AUGMENTED_PROMPT_TAIL =
     ''\<newline>'' @
     ''"""\<newline>'' @
     ''\<newline>'' @
     ''Instructions:\<newline>'' @
     ''1.  **Analyze the Exam Topic:** Understand the core concepts required.\<newline>'' @
     ''2.  **Explain using Local Context:** First, synthesize a clear explanation based *ONLY* on the "Relevant Context Retrieved from Local Study Materials" provided above.\<newline>'' @
     ''    *   Explicitly reference the source file and page number (e.g., "According to Lecture 3, Page 5...") when using this information.\<newline>'' @
     ''    *   Incorporate any relevant visual, table, or equation descriptions found in the local context.\<newline>'' @
     ''    *   Use clear Markdown formatting (headings, lists, bolding, code blocks if applicable).\<newline>'' @
     ''3.  **Identify Gaps:** After explaining based on local context, explicitly state if the provided local context is insufficient to fully cover the topic or if certain aspects are missing. Mention what these gaps are. If the context *is* sufficient, state that.\<newline>'' @
     ''4.  **Augment with General Knowledge:** If you identified gaps OR if you believe your general knowledge can provide significant valuable additions (like broader context, alternative approaches, real-world examples, or deeper insights not present in the local documents), add a section titled "### Additional Information (General Knowledge)".\<newline>'' @
     ''    *   In this section, use your own knowledge base to fill the identified gaps or provide the supplementary information.\<newline>'' @
     ''    *   **Crucially, make it clear that this additional information comes from your general knowledge and not the specific local documents.**\<newline>'' @
     ''5.  **Final Formatting:** Ensure the entire explanation for the topic is well-structured, uses excellent Markdown formatting, and is easy to read and understand. Start the explanation for the topic with a Level 2 Markdown heading (e.g., `## Topic Name`).\<newline>'' @
     ''\<newline>'' @
     ''Provide the complete, well-formatted explanation for the exam topic below:\<newline>''\<close>


definition construct_augmented_rag_prompt :: "string \<Rightarrow> string \<Rightarrow> string" where
  "construct_augmented_rag_prompt exam_topic formatted_context =
     AUGMENTED_PROMPT_HEAD @ exam_topic @ AUGMENTED_PROMPT_MIDDLE @ formatted_context @
     AUGMENTED_PROMPT_TAIL"

text \<open>
  \<open>generate_guide_explanation_async\<close>, the \<open>i\<close>-th generation call: the text of the
  response, or a placeholder that carries the error.
\<close>

definition generate_guide_explanation_async ::
  "environment \<Rightarrow> nat \<Rightarrow> string \<Rightarrow> string \<Rightarrow> string" where
  \<open>generate_guide_explanation_async env i prompt topic_name =
     (case generate_content env i prompt of
        HasText t \<Rightarrow> t
      | HasParts ps \<Rightarrow> concat ps
      | HasCandidateParts ps \<Rightarrow> concat ps
      | NoText \<Rightarrow>
          ''\<newline>\<newline>*Error: Could not generate explanation for this topic due to response format issues.*\<newline>\<newline>''
      | CallRaised e \<Rightarrow>
          ''\<newline>\<newline>*Error generating explanation for this topic: '' @ e @ ''*'' @
          ''\<newline>\<newline>''
      | ReadRaised e feedback \<Rightarrow>
          ''\<newline>\<newline>*Error generating explanation for this topic: '' @ e @ ''*'' @
          (case feedback of
             None \<Rightarrow> []
           | Some f \<Rightarrow> if f = [] then [] else ''\<newline>*Prompt Feedback: '' @ f @ ''*'') @
          ''\<newline>\<newline>'')\<close>

text \<open>The dummy task of a topic whose embedding failed.\<close>

definition error_task :: "string \<Rightarrow> string" where
  \<open>error_task t =
     ''## '' @ t @ ''\<newline>\<newline>*Error: Could not embed this topic query. Skipping.*\<newline>\<newline>''\<close>

text \<open>
  The first loop of \<open>main_async\<close>, over \<open>enumerate(topics)\<close> from index \<open>i\<close> on: one pair
  (topic, prompt) per topic, the prompt \<open>None\<close> when the embedding failed.
\<close>

fun topic_data_for_generation ::
  "environment \<Rightarrow> int \<Rightarrow> nat \<Rightarrow> string list \<Rightarrow> (string \<times> string option) list" where
  "topic_data_for_generation env n i [] = []"
| "topic_data_for_generation env n i (topic # topics) =
     (case embed_query_async env i topic of
        None \<Rightarrow> (topic, None)
      | Some query_embedding \<Rightarrow>
          (let retrieved_results = guide_query_chroma env (Some query_embedding) n;
               formatted_context = guide_format_retrieved_context retrieved_results;
               augmented_prompt = construct_augmented_rag_prompt topic formatted_context
           in (topic, Some augmented_prompt)))
     # topic_data_for_generation env n (Suc i) topics"

text \<open>
  The second loop: one task per pair, in the order of the pairs. A task is given by the
  value it returns; the generation call of the pair at position \<open>i\<close> is the call \<open>i\<close>.
\<close>

fun generation_tasks ::
  "environment \<Rightarrow> nat \<Rightarrow> (string \<times> string option) list \<Rightarrow> string list" where
  "generation_tasks env i [] = []"
| "generation_tasks env i ((topic, prompt) # rest) =
     (case prompt of
        None \<Rightarrow> error_task topic
      | Some p \<Rightarrow> generate_guide_explanation_async env i p topic)
     # generation_tasks env (Suc i) rest"

text \<open>
  \<open>asyncio.gather(*tasks)\<close>. The tasks finish in some order, the completion order, a list
  of task indices; each result is stored under the index of its task, and \<open>gather\<close>
  returns the results by index once every task has finished. While a task is
  outstanding it does not return (\<open>None\<close>). The semaphore bounds how many calls are in
  flight; it changes the completion order only.
\<close>

definition gather :: "nat list \<Rightarrow> 'a list \<Rightarrow> 'a list option" where
  "gather completion_order tasks =
     (let finished = foldl (\<lambda>slots i. if i < length tasks then slots(i \<mapsto> tasks ! i) else slots)
                       Map.empty completion_order
      in if list_all (\<lambda>i. finished i \<noteq> None) [0..<length tasks]
         then Some (map (\<lambda>i. the (finished i)) [0..<length tasks])
         else None)"

text \<open>Steps 4 and 5 of \<open>main_async\<close>: the two loops and the \<open>gather\<close>.\<close>

definition generate_explanations ::
  "environment \<Rightarrow> int \<Rightarrow> string list \<Rightarrow> nat list \<Rightarrow> string list option" where
  "generate_explanations env n topics completion_order =
     gather completion_order
       (generation_tasks env 0 (topic_data_for_generation env n 0 topics))"

text \<open>\<open>sep.join(xs)\<close>.\<close>

fun join :: "string \<Rightarrow> string list \<Rightarrow> string" where
  "join sep [] = []"
| "join sep [x] = x"
| "join sep (x # y # ys) = x @ sep @ join sep (y # ys)"

definition GUIDE_PREAMBLE :: string where
  \<open>GUIDE_PREAMBLE =
     ''# Exam Study Guide\<newline>\<newline>This guide covers key topics based on local study materials and augmented with general knowledge.\<newline>\<newline>''\<close>

text \<open>Step 6: the guide's text.\<close>

definition final_guide_content :: "string list \<Rightarrow> string" where
  \<open>final_guide_content explanations =
     join ''\<newline>'' (GUIDE_PREAMBLE # map (\<lambda>exp. exp @ ''\<newline>\<newline>---\<newline>'') explanations)\<close>

record guide_args =
  g_chroma_path :: string
  g_collection_name :: string
  g_n_results :: int

record guide_result =
  explanations :: "string list"
  guide_content :: string

text \<open>
  \<open>main_async\<close>. \<open>loaded\<close> is what \<open>load_topics(args.topics_file)\<close> gives: an exit status
  or the list of topics. The result is \<open>None\<close> while \<open>gather\<close> does not return.
\<close>

definition main_async ::
  "environment \<Rightarrow> guide_args \<Rightarrow> int + string list \<Rightarrow> nat list \<Rightarrow> (int + guide_result) option" where
  "main_async env args loaded completion_order =
     (case configure_api env of
        Inl status \<Rightarrow> Some (Inl status)
      | Inr _ \<Rightarrow>
     (case loaded of
        Inl status \<Rightarrow> Some (Inl status)
      | Inr topics \<Rightarrow>
          if topics = [] then Some (Inl 0)
          else
     (case connect_to_chroma env (g_chroma_path args) (g_collection_name args) of
        Inl status \<Rightarrow> Some (Inl status)
      | Inr _ \<Rightarrow>
     (case generate_explanations env (g_n_results args) topics completion_order of
        None \<Rightarrow> None
      | Some exps \<Rightarrow>
          Some (Inr \<lparr>explanations = exps, guide_content = final_guide_content exps\<rparr>)))))"

text \<open>
  The section of the topic at position \<open>i\<close>: the placeholder when its embedding failed,
  and what the generation call \<open>i\<close> gave for its prompt otherwise.
\<close>

definition section_for_topic :: "environment \<Rightarrow> int \<Rightarrow> nat \<Rightarrow> string \<Rightarrow> string" where
  "section_for_topic env n i topic =
     (case embed_content env i topic of
        None \<Rightarrow> error_task topic
      | Some e \<Rightarrow>
          generate_guide_explanation_async env i
            (construct_augmented_rag_prompt topic
               (guide_format_retrieved_context (collection_query env e n)))
            topic)"

definition sample_env :: environment where
  "sample_env =
     \<lparr>GOOGLE_API_KEY = Some ''key'',
      genai_configure = (\<lambda>_. True),
      get_collection = (\<lambda>_ _. True),
      embed_content = (\<lambda>i t. if t = ''limits'' then None else Some [1/2]),
      collection_query = (\<lambda>_ _. None),
      generate_content = (\<lambda>i p. HasText (replicate (Suc i) (CHR ''#'')))\<rparr>"


definition sample_solver_args :: solver_args where
  "sample_solver_args =
     \<lparr>arg_query = ''limits'', arg_chroma_path = ''chroma_db_vision'',
      arg_collection_name = ''study_material_vision_v1'', arg_n_results = 10,
      arg_output_dir = ''exam_solutions_rag'', arg_no_save = False\<rparr>"

definition sample_guide_args :: guide_args where
  "sample_guide_args =
     \<lparr>g_chroma_path = ''chroma_db_vision'', g_collection_name = ''study_material_vision_v1'',
      g_n_results = 10\<rparr>"

section \<open>The guide generator and the solver: lemmas\<close>

lemma foldl_slots:
  "foldl (\<lambda>slots i. if i < n then slots(i \<mapsto> f i) else slots) m order i =
     (if i \<in> set order \<and> i < n then Some (f i) else m i)"
  by (induction order arbitrary: m) auto

lemma gather_complete:
  assumes "set [0..<length tasks] \<subseteq> set completion_order"
  shows "gather completion_order tasks = Some tasks"
proof -
  let ?finished = "foldl (\<lambda>slots i. if i < length tasks then slots(i \<mapsto> tasks ! i) else slots)
                     Map.empty completion_order"
  have fin: "?finished i = Some (tasks ! i)" if "i < length tasks" for i
    using that assms by (simp add: foldl_slots subset_iff)
  then have "list_all (\<lambda>i. ?finished i \<noteq> None) [0..<length tasks]"
    by (simp add: list_all_iff)
  moreover have "map (\<lambda>i. the (?finished i)) [0..<length tasks] = map ((!) tasks) [0..<length tasks]"
    using fin by simp
  ultimately show ?thesis
    by (simp only: gather_def Let_def map_nth if_True)
qed

lemma length_topic_data: "length (topic_data_for_generation env n k topics) = length topics"
  by (induction topics arbitrary: k) simp_all

lemma length_generation_tasks: "length (generation_tasks env k data) = length data"
  by (induction env k data rule: generation_tasks.induct) simp_all

lemma generation_tasks_nth:
  "i < length topics \<Longrightarrow>
     generation_tasks env k (topic_data_for_generation env n k topics) ! i =
     section_for_topic env n (k + i) (topics ! i)"
proof (induction topics arbitrary: k i)
  case Nil
  then show ?case by simp
next
  case (Cons topic topics)
  show ?case
  proof (cases i)
    case 0
    then show ?thesis
      by (simp add: section_for_topic_def embed_query_async_def guide_query_chroma_def
            split: option.split)
  next
    case (Suc j)
    with Cons.prems have "j < length topics"
      by simp
    from Cons.IH [OF this, of "Suc k"] Suc show ?thesis
      by (simp split: option.split)
  qed
qed

lemma generate_explanations_complete:
  assumes "set [0..<length topics] \<subseteq> set completion_order"
  shows "generate_explanations env n topics completion_order =
         Some (generation_tasks env 0 (topic_data_for_generation env n 0 topics))"
  unfolding generate_explanations_def
  using assms by (intro gather_complete) (simp add: length_generation_tasks length_topic_data)

lemma section_for_failed_embedding:
  "embed_content env i topic = None \<Longrightarrow> section_for_topic env n i topic = error_task topic"
  by (simp add: section_for_topic_def)

section \<open>The guide generator and the solver: claims\<close>

text \<open>
  C9: for every list of topics and every order in which the generation tasks complete,
  the guide generator produces exactly one section per topic, and the section at
  position \<open>i\<close> is the one of the topic at position \<open>i\<close>: the error placeholder when the
  embedding of that topic failed, and the result of its own generation call otherwise.
\<close>

theorem guide_sections_follow_topics:
  assumes "set [0..<length topics] \<subseteq> set completion_order"
  shows "\<exists>sections. generate_explanations env n topics completion_order = Some sections \<and>
           length sections = length topics \<and>
           (\<forall>i<length topics. sections ! i = section_for_topic env n i (topics ! i)) \<and>
           (\<forall>i<length topics. embed_content env i (topics ! i) = None \<longrightarrow>
                sections ! i = error_task (topics ! i))"
proof -
  let ?sections = "generation_tasks env 0 (topic_data_for_generation env n 0 topics)"
  have "generate_explanations env n topics completion_order = Some ?sections"
    using assms by (rule generate_explanations_complete)
  moreover have "length ?sections = length topics"
    by (simp add: length_generation_tasks length_topic_data)
  moreover have nth: "\<forall>i<length topics. ?sections ! i = section_for_topic env n i (topics ! i)"
    using generation_tasks_nth [of _ topics env 0 n] by simp
  moreover have "\<forall>i<length topics. embed_content env i (topics ! i) = None \<longrightarrow>
                   ?sections ! i = error_task (topics ! i)"
    using nth by (simp add: section_for_failed_embedding)
  ultimately show ?thesis
    by blast
qed

theorem guide_sections_follow_topics_witness:
  "\<exists>sections. generate_explanations sample_env 10 [''sets'', ''limits'', ''series''] [2, 0, 1]
        = Some sections \<and>
     length sections = 3 \<and>
     sections ! 0 = ''#'' \<and>
     sections ! 1 = error_task ''limits'' \<and>
     sections ! 2 = ''###''"
proof -
  have "set [0..<length [''sets'', ''limits'', ''series'']] \<subseteq> set [2, 0, 1::nat]"
    by (simp add: upt_rec)
  from guide_sections_follow_topics [OF this, of sample_env 10]
  obtain sections where
    s: "generate_explanations sample_env 10 [''sets'', ''limits'', ''series''] [2, 0, 1] = Some sections"
    and l: "length sections = 3"
    and n: "\<forall>i<3. sections ! i = section_for_topic sample_env 10 i ([''sets'', ''limits'', ''series''] ! i)"
    by auto
  have "sections ! 0 = ''#''"
    using n [rule_format, of 0]
    by (simp add: section_for_topic_def sample_env_def generate_guide_explanation_async_def)
  moreover have "sections ! 1 = error_task ''limits''"
    using n [rule_format, of 1] by (simp add: section_for_topic_def sample_env_def)
  moreover have "sections ! 2 = ''###''"
    using n [rule_format, of 2]
    by (simp add: section_for_topic_def sample_env_def generate_guide_explanation_async_def
          numeral_2_eq_2)
  ultimately show ?thesis
    using s l by blast
qed

text \<open>
  C3, as the claim states it, fails for the single-query solver: its \<open>embed_query\<close> calls
  \<open>sys.exit(1)\<close> when the embedding call raises, so the run ends with status 1 and no
  context is formatted.
\<close>

theorem embedding_failure_counterexample:
  "embed_content sample_env 0 (arg_query sample_solver_args) = None \<and>
   solver_main sample_env sample_solver_args = Inl 1"
  by (simp add: solver_main_def sample_env_def sample_solver_args_def configure_api_def
        connect_to_chroma_def embed_query_def)

text \<open>
  C3, amended: in the guide generator a failed embedding gives \<open>None\<close> and not an
  exception, the retriever gives \<open>None\<close> for it, and the formatter renders that as the
  "no relevant context" sentinel; \<open>main_async\<close> does not end there: once the setup has
  succeeded it returns one section per topic, with the error placeholder at the
  position of the topic whose embedding failed. The single-query solver exits with
  status 1 when its embedding fails.
\<close>

theorem embedding_failure_outcomes:
  "(embed_content env j topic = None \<longrightarrow>
      embed_query_async env j topic = None \<and>
      guide_query_chroma env (embed_query_async env j topic) n = None \<and>
      guide_format_retrieved_context (guide_query_chroma env (embed_query_async env j topic) n) =
        ''No relevant context found in the local knowledge base.'') \<and>
   (configure_api env = Inr () \<and> topics \<noteq> [] \<and>
    connect_to_chroma env (g_chroma_path gargs) (g_collection_name gargs) = Inr () \<and>
    set [0..<length topics] \<subseteq> set completion_order \<and>
    i < length topics \<and> embed_content env i (topics ! i) = None \<longrightarrow>
      (\<exists>r. main_async env gargs (Inr topics) completion_order = Some (Inr r) \<and>
           length (explanations r) = length topics \<and>
           explanations r ! i = error_task (topics ! i))) \<and>
   (configure_api env = Inr () \<and>
    connect_to_chroma env (arg_chroma_path sargs) (arg_collection_name sargs) = Inr () \<and>
    embed_content env 0 (arg_query sargs) = None \<longrightarrow>
      solver_main env sargs = Inl 1)"
proof (intro conjI impI)
  assume "embed_content env j topic = None"
  then show "embed_query_async env j topic = None"
    and "guide_query_chroma env (embed_query_async env j topic) n = None"
    and "guide_format_retrieved_context (guide_query_chroma env (embed_query_async env j topic) n) =
          ''No relevant context found in the local knowledge base.''"
    by (simp_all add: embed_query_async_def guide_query_chroma_def
          guide_format_retrieved_context_def)
next
  assume a: "configure_api env = Inr () \<and> topics \<noteq> [] \<and>
    connect_to_chroma env (g_chroma_path gargs) (g_collection_name gargs) = Inr () \<and>
    set [0..<length topics] \<subseteq> set completion_order \<and>
    i < length topics \<and> embed_content env i (topics ! i) = None"
  let ?exps = "generation_tasks env 0 (topic_data_for_generation env (g_n_results gargs) 0 topics)"
  from a have "generate_explanations env (g_n_results gargs) topics completion_order = Some ?exps"
    by (intro generate_explanations_complete) simp
  with a have "main_async env gargs (Inr topics) completion_order =
                 Some (Inr \<lparr>explanations = ?exps, guide_content = final_guide_content ?exps\<rparr>)"
    by (simp add: main_async_def)
  moreover have "length ?exps = length topics"
    by (simp add: length_generation_tasks length_topic_data)
  moreover from a have "?exps ! i = error_task (topics ! i)"
    using generation_tasks_nth [of i topics env 0 "g_n_results gargs"]
    by (simp add: section_for_failed_embedding)
  ultimately show "\<exists>r. main_async env gargs (Inr topics) completion_order = Some (Inr r) \<and>
           length (explanations r) = length topics \<and>
           explanations r ! i = error_task (topics ! i)"
    by simp
next
  assume "configure_api env = Inr () \<and>
    connect_to_chroma env (arg_chroma_path sargs) (arg_collection_name sargs) = Inr () \<and>
    embed_content env 0 (arg_query sargs) = None"
  then show "solver_main env sargs = Inl 1"
    by (simp add: solver_main_def embed_query_def)
qed

theorem embedding_failure_outcomes_witness:
  "guide_format_retrieved_context
     (guide_query_chroma sample_env (embed_query_async sample_env 1 ''limits'') 10) =
     ''No relevant context found in the local knowledge base.'' \<and>
   (\<exists>r. main_async sample_env sample_guide_args (Inr [''sets'', ''limits'']) [1, 0] = Some (Inr r) \<and>
        length (explanations r) = 2 \<and>
        explanations r ! 1 = error_task ''limits'') \<and>
   solver_main sample_env sample_solver_args = Inl 1"
proof -
  let ?topics = "[''sets'', ''limits'']"
  note t = embedding_failure_outcomes [of sample_env 1 "''limits''" 10 ?topics
             sample_guide_args "[1, 0]" 1 sample_solver_args]
  have e: "embed_content sample_env 1 ''limits'' = None"
    and e1: "embed_content sample_env 1 (?topics ! 1) = None"
    and e0: "embed_content sample_env 0 (arg_query sample_solver_args) = None"
    by (simp_all add: sample_env_def sample_solver_args_def)
  have c: "configure_api sample_env = Inr ()"
    by (simp add: configure_api_def sample_env_def)
  have g: "connect_to_chroma sample_env (g_chroma_path sample_guide_args)
             (g_collection_name sample_guide_args) = Inr ()"
    and s: "connect_to_chroma sample_env (arg_chroma_path sample_solver_args)
             (arg_collection_name sample_solver_args) = Inr ()"
    by (simp_all add: connect_to_chroma_def sample_env_def)
  have o: "set [0..<length ?topics] \<subseteq> set [1, 0::nat]"
    by (simp add: upt_rec)
  have ne: "?topics \<noteq> []" and l: "1 < length ?topics"
    by simp_all
  from t e have A: "guide_format_retrieved_context
     (guide_query_chroma sample_env (embed_query_async sample_env 1 ''limits'') 10) =
     ''No relevant context found in the local knowledge base.''"
    by blast
  from t c ne g o l e1
  have "\<exists>r. main_async sample_env sample_guide_args (Inr ?topics) [1, 0] = Some (Inr r) \<and>
        length (explanations r) = length ?topics \<and>
        explanations r ! 1 = error_task (?topics ! 1)"
    by blast
  then have B: "\<exists>r. main_async sample_env sample_guide_args (Inr ?topics) [1, 0] = Some (Inr r) \<and>
        length (explanations r) = 2 \<and>
        explanations r ! 1 = error_task ''limits''"
    by (simp add: numeral_2_eq_2)
  from t c s e0 have C: "solver_main sample_env sample_solver_args = Inl 1"
    by blast
  from A B C show ?thesis
    by blast
qed

section \<open>extract_exam_topics.py\<close>

text \<open>
  The line boundaries of \<open>str.splitlines()\<close> below code point 256: line feed, carriage
  return, vertical tab, form feed, the separators 28 to 30 and the next-line character
  133.
\<close>

definition is_linebreak :: "char \<Rightarrow> bool" where
  "is_linebreak c = (let n = (of_char c :: nat) in (10 \<le> n \<and> n \<le> 13) \<or> (28 \<le> n \<and> n \<le> 30) \<or> n = 133)"

text \<open>
  \<open>s.splitlines()\<close>, with the line read so far as first argument: a carriage return
  followed by a line feed is one boundary, and a boundary at the very end opens no
  further line.
\<close>

fun splitlines_from :: "string \<Rightarrow> string \<Rightarrow> string list" where
  "splitlines_from line [] = (if line = [] then [] else [line])"
| "splitlines_from line [c] = (if is_linebreak c then [line] else [line @ [c]])"
| "splitlines_from line (c # d # cs) =
     (if c = CHR 0x0D \<and> d = CHR 0x0A then line # splitlines_from [] cs
      else if is_linebreak c then line # splitlines_from [] (d # cs)
      else splitlines_from (line @ [c]) (d # cs))"

definition splitlines :: "string \<Rightarrow> string list" where
  "splitlines s = splitlines_from [] s"

definition EXTRACTION_PROMPT_HEAD :: string where
  \<open>EXTRACTION_PROMPT_HEAD =
     ''Your task is to carefully analyze the following text, which is a summary of a past university exam paper or problem set for a specific course.\<newline>'' @
     ''\<newline>'' @
     ''Identify and list the main topics, specific concepts, key definitions, types of calculations, or kinds of problems that were tested or covered in this exam according to the summary.\<newline>'' @
     ''\<newline>'' @
     ''Focus on extracting distinct, actionable items that a student would need to study or practice. Be concise.\<newline>'' @
     ''\<newline>'' @
     ''Output ONLY a list of these topics/items, with each distinct item on a new line. Do not include introductory phrases like "Here are the topics:" or bullet points. Just the list items, one per line.\<newline>'' @
     ''\<newline>'' @
     ''Exam Summary Text:\<newline>'' @
     ''---\<newline>''\<close>

definition EXTRACTION_PROMPT_TAIL :: string where
  \<open>EXTRACTION_PROMPT_TAIL =
     ''\<newline>'' @
     ''---\<newline>'' @
     ''\<newline>'' @
     ''List of Topics/Items Tested:\<newline>''\<close>

text \<open>
  \<open>extract_topics_from_summary\<close>, the \<open>i\<close>-th call of the model: the stripped non-blank
  lines of \<open>response.text\<close>; a call that raises, or a response without text, gives no
  topics.
\<close>

definition extract_topics_from_summary :: "environment \<Rightarrow> nat \<Rightarrow> string \<Rightarrow> string list" where
  "extract_topics_from_summary env i summary_content =
     (case generate_content env i (EXTRACTION_PROMPT_HEAD @ summary_content @ EXTRACTION_PROMPT_TAIL) of
        HasText t \<Rightarrow> map strip (filter (\<lambda>line. strip line \<noteq> []) (splitlines t))
      | _ \<Rightarrow> [])"

text \<open>
  The loop over the summary files, from the file number \<open>i\<close> on. A file is given by what
  reading it returns (\<open>None\<close> when the read raises); \<open>unique_topics\<close> is the set so far.
\<close>

fun collect_topics ::
  "environment \<Rightarrow> nat \<Rightarrow> string option list \<Rightarrow> string fset \<Rightarrow> string fset" where
  "collect_topics env i [] unique_topics = unique_topics"
| "collect_topics env i (md_file # md_files) unique_topics =
     collect_topics env (Suc i) md_files
       (case md_file of
          None \<Rightarrow> unique_topics
        | Some summary_content \<Rightarrow>
            if strip summary_content = [] then unique_topics
            else unique_topics |\<union>| fset_of_list (extract_topics_from_summary env i summary_content))"

text \<open>\<open>str.lower()\<close> below code point 256.\<close>

definition lower_char :: "char \<Rightarrow> char" where
  "lower_char c = (let n = (of_char c :: nat) in
     if (65 \<le> n \<and> n \<le> 90) \<or> (192 \<le> n \<and> n \<le> 222 \<and> n \<noteq> 215) then char_of (n + 32) else c)"

definition lower :: "string \<Rightarrow> string" where
  "lower s = map lower_char s"

text \<open>
  What the extractor leaves behind: its exit status, the content of the output file if
  one was written (the argument of \<open>json.dump\<close>, or the text), and whether the warning
  about an unknown extension was printed.
\<close>

datatype file_content = JsonArray "string list" | PlainText string

record extractor_outcome =
  exit_status :: int
  written :: "file_content option"
  warned :: bool

text \<open>\<open>for topic in topic_list: f.write(topic + '\n')\<close>.\<close>

definition text_lines :: "string list \<Rightarrow> string" where
  \<open>text_lines topic_list = concat (map (\<lambda>topic. topic @ ''\<newline>'') topic_list)\<close>

text \<open>
  Step 8, "Save Unique Topics". \<open>suffix\<close> is \<open>output_path.suffix\<close>; \<open>mkdir_ok\<close> and
  \<open>write_ok\<close> say whether creating the parent directory and writing the file succeed
  (an exception of \<open>mkdir\<close> is not caught, one of the write is, both end with status 1).
\<close>

definition save_unique_topics :: "string fset \<Rightarrow> string \<Rightarrow> bool \<Rightarrow> bool \<Rightarrow> extractor_outcome" where
  "save_unique_topics unique_topics suffix mkdir_ok write_ok =
     (if unique_topics = {||} then \<lparr>exit_status = 0, written = None, warned = False\<rparr>
      else if \<not> mkdir_ok then \<lparr>exit_status = 1, written = None, warned = False\<rparr>
      else
        (let topic_list = sorted_list_of_fset unique_topics;
             file_extension = lower suffix
         in if file_extension = ''.json'' then
              (if write_ok then \<lparr>exit_status = 0, written = Some (JsonArray topic_list), warned = False\<rparr>
               else \<lparr>exit_status = 1, written = None, warned = False\<rparr>)
            else if file_extension = ''.txt'' then
              (if write_ok then \<lparr>exit_status = 0, written = Some (PlainText (text_lines topic_list)), warned = False\<rparr>
               else \<lparr>exit_status = 1, written = None, warned = False\<rparr>)
            else
              (if write_ok then \<lparr>exit_status = 0, written = Some (PlainText (text_lines topic_list)), warned = True\<rparr>
               else \<lparr>exit_status = 1, written = None, warned = True\<rparr>)))"

text \<open>
  The whole script. \<open>model_ok\<close>: the model object could be created; \<open>exam_dir\<close>: the
  summary files found under the directory, \<open>None\<close> when it is not a directory.
\<close>

definition extractor_main ::
  "environment \<Rightarrow> bool \<Rightarrow> string option list option \<Rightarrow> string \<Rightarrow> bool \<Rightarrow> bool \<Rightarrow> extractor_outcome" where
  "extractor_main env model_ok exam_dir suffix mkdir_ok write_ok =
     (case configure_api env of
        Inl status \<Rightarrow> \<lparr>exit_status = status, written = None, warned = False\<rparr>
      | Inr _ \<Rightarrow>
          if \<not> model_ok then \<lparr>exit_status = 1, written = None, warned = False\<rparr>
          else
            (case exam_dir of
               None \<Rightarrow> \<lparr>exit_status = 1, written = None, warned = False\<rparr>
             | Some md_files \<Rightarrow>
                 if md_files = [] then \<lparr>exit_status = 0, written = None, warned = False\<rparr>
                 else save_unique_topics (collect_topics env 0 md_files {||}) suffix mkdir_ok write_ok))"


section \<open>The topic extractor: lemmas and claim\<close>

lemma sorted_sorted_list_of_fset: "sorted (sorted_list_of_fset S)"
  by (simp add: sorted_list_of_fset.rep_eq)

lemma distinct_sorted_list_of_fset: "distinct (sorted_list_of_fset S)"
  by (simp add: sorted_list_of_fset.rep_eq)

lemma collect_topics_grows: "unique_topics |\<subseteq>| collect_topics env i md_files unique_topics"
proof (induction md_files arbitrary: i unique_topics)
  case Nil
  show ?case by simp
next
  case (Cons md_file md_files)
  have "unique_topics |\<subseteq>|
          (case md_file of None \<Rightarrow> unique_topics
           | Some summary_content \<Rightarrow>
               if strip summary_content = [] then unique_topics
               else unique_topics |\<union>| fset_of_list (extract_topics_from_summary env i summary_content))"
    by (auto split: option.split)
  also have "\<dots> |\<subseteq>| collect_topics env i (md_file # md_files) unique_topics"
    using Cons.IH by simp
  finally show ?case .
qed

lemma lower_samples:
  "lower ''.JSON'' = ''.json''" "lower ''.txt'' = ''.txt''" "lower ''.md'' = ''.md''"
  by (simp_all add: lower_def lower_char_def char_of_eq_iff)

text \<open>
  C7: with no accumulated topic the extractor writes no file and exits with status 0.
  With at least one, and a file system that lets it create the directory and write,
  it writes the one sorted duplicate-free list of the accumulated topics: as a JSON
  array when the lower-cased extension is \<open>.json\<close>, as newline-delimited text (every
  topic of the list followed by one line feed, and nothing else) when it is \<open>.txt\<close>,
  and as the same newline-delimited text with a warning for every other extension. A
  run whose setup succeeded and that found summary files saves the topics it
  collected.
\<close>

theorem extractor_output:
  "(unique_topics = {||} \<longrightarrow>
      save_unique_topics unique_topics suffix mkdir_ok write_ok =
        \<lparr>exit_status = 0, written = None, warned = False\<rparr>) \<and>
   (unique_topics \<noteq> {||} \<and> mkdir_ok \<and> write_ok \<longrightarrow>
      (\<exists>topic_list. sorted topic_list \<and> distinct topic_list \<and>
         set topic_list = fset unique_topics \<and>
         (lower suffix = ''.json'' \<longrightarrow>
            save_unique_topics unique_topics suffix mkdir_ok write_ok =
              \<lparr>exit_status = 0, written = Some (JsonArray topic_list), warned = False\<rparr>) \<and>
         (lower suffix = ''.txt'' \<longrightarrow>
            save_unique_topics unique_topics suffix mkdir_ok write_ok =
              \<lparr>exit_status = 0, written = Some (PlainText (concat (map (\<lambda>topic. topic @ [CHR 0x0A]) topic_list))), warned = False\<rparr>) \<and>
         (lower suffix \<noteq> ''.json'' \<and> lower suffix \<noteq> ''.txt'' \<longrightarrow>
            save_unique_topics unique_topics suffix mkdir_ok write_ok =
              \<lparr>exit_status = 0, written = Some (PlainText (concat (map (\<lambda>topic. topic @ [CHR 0x0A]) topic_list))), warned = True\<rparr>))) \<and>
   (configure_api env = Inr () \<and> model_ok \<and> md_files \<noteq> [] \<longrightarrow>
      extractor_main env model_ok (Some md_files) suffix mkdir_ok write_ok =
        save_unique_topics (collect_topics env 0 md_files {||}) suffix mkdir_ok write_ok)"
proof (intro conjI impI)
  assume "unique_topics = {||}"
  then show "save_unique_topics unique_topics suffix mkdir_ok write_ok =
        \<lparr>exit_status = 0, written = None, warned = False\<rparr>"
    by (simp add: save_unique_topics_def)
next
  assume a: "unique_topics \<noteq> {||} \<and> mkdir_ok \<and> write_ok"
  let ?l = "sorted_list_of_fset unique_topics"
  have "sorted ?l" "distinct ?l" "set ?l = fset unique_topics"
    by (simp_all add: sorted_sorted_list_of_fset distinct_sorted_list_of_fset)
  moreover have "lower suffix = ''.json'' \<longrightarrow>
            save_unique_topics unique_topics suffix mkdir_ok write_ok =
              \<lparr>exit_status = 0, written = Some (JsonArray ?l), warned = False\<rparr>"
    using a by (simp add: save_unique_topics_def Let_def text_lines_def)
  moreover have "lower suffix = ''.txt'' \<longrightarrow>
            save_unique_topics unique_topics suffix mkdir_ok write_ok =
              \<lparr>exit_status = 0, written = Some (PlainText (concat (map (\<lambda>topic. topic @ [CHR 0x0A]) ?l))), warned = False\<rparr>"
    using a by (simp add: save_unique_topics_def Let_def text_lines_def)
  moreover have "lower suffix \<noteq> ''.json'' \<and> lower suffix \<noteq> ''.txt'' \<longrightarrow>
            save_unique_topics unique_topics suffix mkdir_ok write_ok =
              \<lparr>exit_status = 0, written = Some (PlainText (concat (map (\<lambda>topic. topic @ [CHR 0x0A]) ?l))), warned = True\<rparr>"
    using a by (simp add: save_unique_topics_def Let_def text_lines_def)
  ultimately show "\<exists>topic_list. sorted topic_list \<and> distinct topic_list \<and>
         set topic_list = fset unique_topics \<and>
         (lower suffix = ''.json'' \<longrightarrow>
            save_unique_topics unique_topics suffix mkdir_ok write_ok =
              \<lparr>exit_status = 0, written = Some (JsonArray topic_list), warned = False\<rparr>) \<and>
         (lower suffix = ''.txt'' \<longrightarrow>
            save_unique_topics unique_topics suffix mkdir_ok write_ok =
              \<lparr>exit_status = 0, written = Some (PlainText (concat (map (\<lambda>topic. topic @ [CHR 0x0A]) topic_list))), warned = False\<rparr>) \<and>
         (lower suffix \<noteq> ''.json'' \<and> lower suffix \<noteq> ''.txt'' \<longrightarrow>
            save_unique_topics unique_topics suffix mkdir_ok write_ok =
              \<lparr>exit_status = 0, written = Some (PlainText (concat (map (\<lambda>topic. topic @ [CHR 0x0A]) topic_list))), warned = True\<rparr>)"
    by blast
next
  assume "configure_api env = Inr () \<and> model_ok \<and> md_files \<noteq> []"
  then show "extractor_main env model_ok (Some md_files) suffix mkdir_ok write_ok =
        save_unique_topics (collect_topics env 0 md_files {||}) suffix mkdir_ok write_ok"
    by (simp add: extractor_main_def)
qed

theorem extractor_output_witness:
  "save_unique_topics {||} ''.JSON'' True True = \<lparr>exit_status = 0, written = None, warned = False\<rparr> \<and>
   (\<exists>topic_list. sorted topic_list \<and> distinct topic_list \<and> set topic_list = {''b'', ''a''} \<and>
      save_unique_topics {|''b'', ''a''|} ''.JSON'' True True =
        \<lparr>exit_status = 0, written = Some (JsonArray topic_list), warned = False\<rparr>) \<and>
   (\<exists>topic_list. sorted topic_list \<and> distinct topic_list \<and> set topic_list = {''b'', ''a''} \<and>
      save_unique_topics {|''b'', ''a''|} ''.txt'' True True =
        \<lparr>exit_status = 0, written = Some (PlainText (concat (map (\<lambda>topic. topic @ [CHR 0x0A]) topic_list))), warned = False\<rparr>) \<and>
   (\<exists>topic_list. sorted topic_list \<and> distinct topic_list \<and> set topic_list = {''b'', ''a''} \<and>
      save_unique_topics {|''b'', ''a''|} ''.md'' True True =
        \<lparr>exit_status = 0, written = Some (PlainText (concat (map (\<lambda>topic. topic @ [CHR 0x0A]) topic_list))), warned = True\<rparr>)"
proof (intro conjI)
  show "save_unique_topics {||} ''.JSON'' True True =
             \<lparr>exit_status = 0, written = None, warned = False\<rparr>"
    using extractor_output [of "{||}" "''.JSON''" True True] by simp
  show "\<exists>topic_list. sorted topic_list \<and> distinct topic_list \<and> set topic_list = {''b'', ''a''} \<and>
      save_unique_topics {|''b'', ''a''|} ''.JSON'' True True =
        \<lparr>exit_status = 0, written = Some (JsonArray topic_list), warned = False\<rparr>"
    using extractor_output [of "{|''b'', ''a''|}" "''.JSON''" True True]
    by (simp add: lower_samples)
  show "\<exists>topic_list. sorted topic_list \<and> distinct topic_list \<and> set topic_list = {''b'', ''a''} \<and>
      save_unique_topics {|''b'', ''a''|} ''.txt'' True True =
        \<lparr>exit_status = 0, written = Some (PlainText (concat (map (\<lambda>topic. topic @ [CHR 0x0A]) topic_list))), warned = False\<rparr>"
    using extractor_output [of "{|''b'', ''a''|}" "''.txt''" True True]
    by (simp add: lower_samples)
  show "\<exists>topic_list. sorted topic_list \<and> distinct topic_list \<and> set topic_list = {''b'', ''a''} \<and>
      save_unique_topics {|''b'', ''a''|} ''.md'' True True =
        \<lparr>exit_status = 0, written = Some (PlainText (concat (map (\<lambda>topic. topic @ [CHR 0x0A]) topic_list))), warned = True\<rparr>"
    using extractor_output [of "{|''b'', ''a''|}" "''.md''" True True]
    by (simp add: lower_samples)
qed

section \<open>structure_exam_topics.py\<close>

text \<open>A JSON value, as \<open>json.loads\<close> returns it.\<close>

datatype json =
    JNull
  | JBool bool
  | JNumber real
  | JString string
  | JArray "json list"
  | JObject "(string \<times> json) list"

text \<open>\<open>s.find(pat)\<close>: the index of the first occurrence of \<open>pat\<close> in \<open>s\<close>, if there is one.\<close>

fun find_sub :: "string \<Rightarrow> string \<Rightarrow> nat option" where
  "find_sub pat [] = (if pat = [] then Some 0 else None)"
| "find_sub pat (c # cs) =
     (if take (length pat) (c # cs) = pat then Some 0 else map_option Suc (find_sub pat cs))"

text \<open>\<open>s.rfind(c)\<close> for one character: the index of its last occurrence.\<close>

definition rfind_char :: "char \<Rightarrow> string \<Rightarrow> nat option" where
  "rfind_char c s = map_option (\<lambda>i. length s - 1 - i) (find_sub [c] (rev s))"

text \<open>
  \<open>re.search(r'```json\s*([\s\S]*?)\s*```', raw_text)\<close>, as far as the code uses it. The
  search succeeds when the first \<open>```json\<close> of the text is followed by a further
  \<open>```\<close>. The lazy group then ends before the first such fence, and it differs from
  the text between \<open>```json\<close> and that fence by whitespace at its two ends only,
  which the \<open>.strip()\<close> applied to the group removes. \<open>fenced_json\<close> returns the text
  between the two fences.
\<close>

definition fenced_json :: "string \<Rightarrow> string option" where
  "fenced_json raw_text =
     (case find_sub ''```json'' raw_text of
        None \<Rightarrow> None
      | Some p \<Rightarrow>
          (let rest = drop (p + 7) raw_text
           in case find_sub ''```'' rest of
                None \<Rightarrow> None
              | Some q \<Rightarrow> Some (take q rest)))"

text \<open>
  The string handed to \<open>json.loads\<close>: the stripped group of a fenced block; without a
  fenced block the stripped reply, cut to the span from its first \<open>[\<close> to its last
  \<open>]\<close> whenever it has both.
\<close>

definition json_candidate :: "string \<Rightarrow> string" where
  "json_candidate raw_text =
     (case fenced_json raw_text of
        Some fenced \<Rightarrow> strip fenced
      | None \<Rightarrow>
          (let json_string = strip raw_text
           in case (find_sub ''['' json_string, rfind_char (CHR '']'') json_string) of
                (Some first_bracket, Some last_bracket) \<Rightarrow>
                  take (last_bracket + 1 - first_bracket) (drop first_bracket json_string)
              | _ \<Rightarrow> json_string))"

definition STRUCTURING_PROMPT_HEAD :: string where
  \<open>STRUCTURING_PROMPT_HEAD =
     ''You are an expert curriculum designer tasked with structuring a list of technical exam topics for optimal learning.\<newline>'' @
     ''\<newline>'' @
     ''Analyze the following list of exam topics:\<newline>'' @
     ''"""\<newline>''\<close>

definition STRUCTURING_PROMPT_TAIL :: string where
  \<open>STRUCTURING_PROMPT_TAIL =
     ''\<newline>'' @
     ''"""\<newline>'' @
     ''\<newline>'' @
     ''Instructions:\<newline>'' @
     ''1.  **Identify Dependencies:** Determine if some topics are prerequisites for others.\<newline>'' @
     ''2.  **Estimate Difficulty:** Roughly categorize each topic's conceptual difficulty (e.g., Foundational, Intermediate, Advanced).\<newline>'' @
     ''3.  **Determine Logical Flow:** Based on dependencies and difficulty, determine the most logical order to learn these topics, starting with foundational concepts and building up.\<newline>'' @
     ''4.  **Output Format:** Respond ONLY with a valid JSON list containing the original topic strings, reordered according to the logical flow you determined. Do not include the difficulty categories or any other commentary in the final JSON output, just the ordered list of topic strings.\<newline>'' @
     ''\<newline>'' @
     ''Example Input Topics:\<newline>'' @
     ''- Calculus I Basics\<newline>'' @
     ''- Introduction to Differential Equations\<newline>'' @
     ''- Advanced Multivariable Calculus\<newline>'' @
     ''\<newline>'' @
     ''Example JSON Output:\<newline>'' @
     ''```json\<newline>'' @
     ''[\<newline>'' @
     ''  "Calculus I Basics",\<newline>'' @
     ''  "Advanced Multivariable Calculus",\<newline>'' @
     ''  "Introduction to Differential Equations"\<newline>'' @
     '']\<newline>'' @
     ''```\<newline>'' @
     ''\<newline>'' @
     ''Provide the reordered JSON list below:\<newline>''\<close>

definition construct_structuring_prompt :: "string list \<Rightarrow> string" where
  \<open>construct_structuring_prompt topic_list =
     STRUCTURING_PROMPT_HEAD @ join ''\<newline>'' (map (\<lambda>topic. ''- '' @ topic) topic_list) @
     STRUCTURING_PROMPT_TAIL\<close>

text \<open>
  \<open>structure_topics_with_llm\<close>. \<open>loads\<close> is \<open>json.loads\<close>, \<open>None\<close> where it raises
  \<open>JSONDecodeError\<close>. The result is the parsed list, or \<open>None\<close> after any failure.
\<close>

definition structure_topics_with_llm ::
  "environment \<Rightarrow> (string \<Rightarrow> json option) \<Rightarrow> string \<Rightarrow> json list option" where
  "structure_topics_with_llm env loads prompt =
     (let parse = (\<lambda>raw_text.
            case loads (json_candidate raw_text) of
              Some (JArray parsed_json) \<Rightarrow> Some parsed_json
            | _ \<Rightarrow> None)
      in case generate_content env 0 prompt of
           HasText t \<Rightarrow> parse t
         | HasParts ps \<Rightarrow> parse (concat ps)
         | HasCandidateParts ps \<Rightarrow> parse (concat ps)
         | NoText \<Rightarrow> None
         | CallRaised e \<Rightarrow> None
         | ReadRaised e feedback \<Rightarrow> None)"

text \<open>
  What the structurer leaves behind: the exit status, the list dumped to the output
  file if one was written, and whether the count warning was printed.
\<close>

record structurer_outcome =
  s_exit_status :: int
  s_written :: "json list option"
  s_warned :: bool

text \<open>
  The script. \<open>loaded\<close> is what \<open>load_topics(args.input_file)\<close> gives; \<open>write_ok\<close> says
  whether \<open>save_topics\<close> can write (its exception is printed, nothing more).
\<close>

definition structurer_main ::
  "environment \<Rightarrow> int + string list \<Rightarrow> (string \<Rightarrow> json option) \<Rightarrow> bool \<Rightarrow> structurer_outcome" where
  "structurer_main env loaded loads write_ok =
     (case configure_api env of
        Inl status \<Rightarrow> \<lparr>s_exit_status = status, s_written = None, s_warned = False\<rparr>
      | Inr _ \<Rightarrow>
     (case loaded of
        Inl status \<Rightarrow> \<lparr>s_exit_status = status, s_written = None, s_warned = False\<rparr>
      | Inr original_topics \<Rightarrow>
          if original_topics = [] then \<lparr>s_exit_status = 0, s_written = None, s_warned = False\<rparr>
          else
            (let prompt = construct_structuring_prompt original_topics;
                 structured_topics = structure_topics_with_llm env loads prompt
             in case structured_topics of
                  None \<Rightarrow> \<lparr>s_exit_status = 1, s_written = None, s_warned = False\<rparr>
                | Some topics \<Rightarrow>
                    if topics = [] then \<lparr>s_exit_status = 1, s_written = None, s_warned = False\<rparr>
                    else \<lparr>s_exit_status = 0,
                          s_written = (if write_ok then Some topics else None),
                          s_warned = (length topics \<noteq> length original_topics)\<rparr>)))"

text \<open>\<open>json.loads\<close> on the four strings of the examples below, and a model that replies with a given text.\<close>

definition sample_json_loads :: "string \<Rightarrow> json option" where
  \<open>sample_json_loads s =
     (if s = ''[]'' then Some (JArray [])
      else if s = ''["b", "a"]'' then Some (JArray [JString ''b'', JString ''a''])
      else if s = ''["a"]'' then Some (JArray [JString ''a''])
      else if s = ''{"topics": ["a"]}'' then Some (JObject [(''topics'', JArray [JString ''a''])])
      else None)\<close>

definition replying_env :: "string \<Rightarrow> environment" where
  "replying_env reply = sample_env\<lparr>generate_content := (\<lambda>i p. HasText reply)\<rparr>"


section \<open>The topic structurer: claim\<close>

lemma configure_replying_env: "configure_api (replying_env reply) = Inr ()"
  by (simp add: replying_env_def sample_env_def configure_api_def)

lemma generate_replying_env: "generate_content (replying_env reply) i p = HasText reply"
  by (simp add: replying_env_def)

text \<open>
  C6, as the claim states it, fails. The script tests the parsed list for truth
  (\<open>if structured_topics:\<close>), so the reply \<open>[]\<close>, a JSON array that parses, is not
  written: the run ends with status 1, although the array's length differs from the
  number of input topics, which the claim says is only warned about. And the reply is
  cut to its bracket span before anything is parsed: \<open>{"topics": ["a"]}\<close> is a JSON
  object, no array, and still \<open>["a"]\<close> is written.
\<close>

theorem structurer_counterexample:
  \<open>structure_topics_with_llm (replying_env ''[]'') sample_json_loads
      (construct_structuring_prompt [''a'', ''b'']) = Some [] \<and>
   structurer_main (replying_env ''[]'') (Inr [''a'', ''b'']) sample_json_loads True =
     \<lparr>s_exit_status = 1, s_written = None, s_warned = False\<rparr> \<and>
   sample_json_loads (strip ''{"topics": ["a"]}'') = Some (JObject [(''topics'', JArray [JString ''a''])]) \<and>
   structurer_main (replying_env ''{"topics": ["a"]}'') (Inr [''a'', ''b'']) sample_json_loads True =
     \<lparr>s_exit_status = 0, s_written = Some [JString ''a''], s_warned = True\<rparr>\<close>
proof -
  have c1: \<open>json_candidate ''[]'' = ''[]''\<close>
    by (simp add: json_candidate_def fenced_json_def strip_def isspace_def rfind_char_def)
  have c2: \<open>json_candidate ''{"topics": ["a"]}'' = ''["a"]''\<close>
    by (simp add: json_candidate_def fenced_json_def strip_def isspace_def rfind_char_def)
  have s2: \<open>strip ''{"topics": ["a"]}'' = ''{"topics": ["a"]}''\<close>
    by (simp add: strip_def isspace_def)
  have l1: \<open>sample_json_loads ''[]'' = Some (JArray [])\<close>
    and l2: \<open>sample_json_loads ''["a"]'' = Some (JArray [JString ''a''])\<close>
    and l3: \<open>sample_json_loads ''{"topics": ["a"]}'' = Some (JObject [(''topics'', JArray [JString ''a''])])\<close>
    by (simp_all add: sample_json_loads_def)
  show ?thesis
    by (simp add: structurer_main_def structure_topics_with_llm_def configure_replying_env
          generate_replying_env c1 c2 s2 l1 l2 l3 del: json_candidate_def)
qed

text \<open>
  C6, amended. The string that is parsed is the stripped content of the fenced block if
  the reply has one, and otherwise the stripped reply, cut to the span from its first
  \<open>[\<close> to its last \<open>]\<close> whenever it contains both. When the setup has succeeded and
  the model has replied with a text, the structurer writes an output file exactly when
  that string parses to a non-empty JSON array (and the file can be written): the
  array is written as it is, with the count warning when its length differs from the
  number of input topics, and the exit status is 0. A parse exception, a value that
  is no array and an empty array all give no output file and exit status 1.
\<close>

theorem structurer_output:
  assumes "configure_api env = Inr ()"
    and "original_topics \<noteq> []"
    and "generate_content env 0 (construct_structuring_prompt original_topics) = HasText raw_text"
  shows
    "(\<forall>fenced. fenced_json raw_text = Some fenced \<longrightarrow> json_candidate raw_text = strip fenced) \<and>
     (\<forall>i j. fenced_json raw_text = None \<and> find_sub ''['' (strip raw_text) = Some i \<and>
            rfind_char (CHR '']'') (strip raw_text) = Some j \<longrightarrow>
            json_candidate raw_text = take (j + 1 - i) (drop i (strip raw_text))) \<and>
     (fenced_json raw_text = None \<and>
        (find_sub ''['' (strip raw_text) = None \<or> rfind_char (CHR '']'') (strip raw_text) = None) \<longrightarrow>
        json_candidate raw_text = strip raw_text) \<and>
     (s_written (structurer_main env (Inr original_topics) loads write_ok) \<noteq> None \<longleftrightarrow>
        write_ok \<and> (\<exists>topics. topics \<noteq> [] \<and> loads (json_candidate raw_text) = Some (JArray topics))) \<and>
     (\<forall>topics. topics \<noteq> [] \<and> loads (json_candidate raw_text) = Some (JArray topics) \<longrightarrow>
        structurer_main env (Inr original_topics) loads write_ok =
          \<lparr>s_exit_status = 0,
           s_written = (if write_ok then Some topics else None),
           s_warned = (length topics \<noteq> length original_topics)\<rparr>) \<and>
     (\<not> (\<exists>topics. topics \<noteq> [] \<and> loads (json_candidate raw_text) = Some (JArray topics)) \<longrightarrow>
        structurer_main env (Inr original_topics) loads write_ok =
          \<lparr>s_exit_status = 1, s_written = None, s_warned = False\<rparr>)"
proof -
  have sel1: "\<forall>fenced. fenced_json raw_text = Some fenced \<longrightarrow> json_candidate raw_text = strip fenced"
    by (simp add: json_candidate_def)
  have sel2: "\<forall>i j. fenced_json raw_text = None \<and> find_sub ''['' (strip raw_text) = Some i \<and>
            rfind_char (CHR '']'') (strip raw_text) = Some j \<longrightarrow>
            json_candidate raw_text = take (j + 1 - i) (drop i (strip raw_text))"
    by (simp add: json_candidate_def)
  have sel3: "fenced_json raw_text = None \<and>
        (find_sub ''['' (strip raw_text) = None \<or> rfind_char (CHR '']'') (strip raw_text) = None) \<longrightarrow>
        json_candidate raw_text = strip raw_text"
    by (auto simp: json_candidate_def Let_def split: option.split)
  let ?out = "structurer_main env (Inr original_topics) loads write_ok"
  have st: "structure_topics_with_llm env loads (construct_structuring_prompt original_topics) =
        (case loads (json_candidate raw_text) of Some (JArray parsed_json) \<Rightarrow> Some parsed_json | _ \<Rightarrow> None)"
    using assms(3) by (simp add: structure_topics_with_llm_def)
  have good: "?out = \<lparr>s_exit_status = 0,
           s_written = (if write_ok then Some topics else None),
           s_warned = (length topics \<noteq> length original_topics)\<rparr>"
    if "topics \<noteq> []" "loads (json_candidate raw_text) = Some (JArray topics)" for topics
    using that assms(1,2) by (simp add: structurer_main_def st)
  have bad: "?out = \<lparr>s_exit_status = 1, s_written = None, s_warned = False\<rparr>"
    if no: "\<not> (\<exists>topics. topics \<noteq> [] \<and> loads (json_candidate raw_text) = Some (JArray topics))"
  proof (cases "loads (json_candidate raw_text)")
    case None
    with assms(1,2) show ?thesis
      by (simp add: structurer_main_def st)
  next
    case (Some v)
    show ?thesis
    proof (cases v)
      case (JArray topics)
      with Some no have "topics = []"
        by blast
      with Some JArray assms(1,2) show ?thesis
        by (simp add: structurer_main_def st)
    qed (use Some assms(1,2) in \<open>simp_all add: structurer_main_def st\<close>)
  qed
  have iff: "s_written ?out \<noteq> None \<longleftrightarrow>
        write_ok \<and> (\<exists>topics. topics \<noteq> [] \<and> loads (json_candidate raw_text) = Some (JArray topics))"
  proof (cases "\<exists>topics. topics \<noteq> [] \<and> loads (json_candidate raw_text) = Some (JArray topics)")
    case True
    then obtain topics where t: "topics \<noteq> []" "loads (json_candidate raw_text) = Some (JArray topics)"
      by blast
    from good [OF t] True show ?thesis
      by simp
  next
    case False
    from bad [OF False] False show ?thesis
      by simp
  qed
  have good': "\<forall>topics. topics \<noteq> [] \<and> loads (json_candidate raw_text) = Some (JArray topics) \<longrightarrow>
        ?out = \<lparr>s_exit_status = 0,
           s_written = (if write_ok then Some topics else None),
           s_warned = (length topics \<noteq> length original_topics)\<rparr>"
    using good by blast
  have bad': "\<not> (\<exists>topics. topics \<noteq> [] \<and> loads (json_candidate raw_text) = Some (JArray topics)) \<longrightarrow>
        ?out = \<lparr>s_exit_status = 1, s_written = None, s_warned = False\<rparr>"
    using bad by blast
  show ?thesis
    by (intro conjI) (rule sel1 sel2 sel3 iff good' bad')+
qed

theorem structurer_output_witness:
  \<open>structurer_main (replying_env ''```json\<newline>["b", "a"]\<newline>```'') (Inr [''a'', ''b'', ''c''])
      sample_json_loads True =
     \<lparr>s_exit_status = 0, s_written = Some [JString ''b'', JString ''a''], s_warned = True\<rparr> \<and>
   structurer_main (replying_env ''no list'') (Inr [''a'', ''b'', ''c'']) sample_json_loads True =
     \<lparr>s_exit_status = 1, s_written = None, s_warned = False\<rparr>\<close>
proof -
  have ne: "[''a'', ''b'', ''c''] \<noteq> []"
    by simp
  have c1: \<open>json_candidate ''```json\<newline>["b", "a"]\<newline>```'' = ''["b", "a"]''\<close>
    by (simp add: json_candidate_def fenced_json_def strip_def isspace_def)
  have c2: \<open>json_candidate ''no list'' = ''no list''\<close>
    by (simp add: json_candidate_def fenced_json_def strip_def isspace_def rfind_char_def)
  have l1: \<open>sample_json_loads ''["b", "a"]'' = Some (JArray [JString ''b'', JString ''a''])\<close>
    and l2: \<open>sample_json_loads ''no list'' = None\<close>
    by (simp_all add: sample_json_loads_def)
  note t1 = structurer_output [OF configure_replying_env ne generate_replying_env,
              of \<open>''```json\<newline>["b", "a"]\<newline>```''\<close> sample_json_loads True]
  note t2 = structurer_output [OF configure_replying_env ne generate_replying_env,
              of \<open>''no list''\<close> sample_json_loads True]
  from t1 have "\<forall>topics. topics \<noteq> [] \<and>
        sample_json_loads (json_candidate ''```json\<newline>[\"b\", \"a\"]\<newline>```'') = Some (JArray topics) \<longrightarrow>
        structurer_main (replying_env ''```json\<newline>[\"b\", \"a\"]\<newline>```'') (Inr [''a'', ''b'', ''c''])
          sample_json_loads True =
          \<lparr>s_exit_status = 0, s_written = (if True then Some topics else None),
           s_warned = (length topics \<noteq> length [''a'', ''b'', ''c''])\<rparr>"
    by (elim conjE)
  then have A: "structurer_main (replying_env ''```json\<newline>[\"b\", \"a\"]\<newline>```'') (Inr [''a'', ''b'', ''c''])
          sample_json_loads True =
     \<lparr>s_exit_status = 0, s_written = Some [JString ''b'', JString ''a''], s_warned = True\<rparr>"
    unfolding c1 l1 by simp
  from t2 have "\<not> (\<exists>topics. topics \<noteq> [] \<and> sample_json_loads (json_candidate ''no list'') = Some (JArray topics)) \<longrightarrow>
        structurer_main (replying_env ''no list'') (Inr [''a'', ''b'', ''c'']) sample_json_loads True =
          \<lparr>s_exit_status = 1, s_written = None, s_warned = False\<rparr>"
    by (elim conjE)
  then have B: "structurer_main (replying_env ''no list'') (Inr [''a'', ''b'', ''c'']) sample_json_loads True =
          \<lparr>s_exit_status = 1, s_written = None, s_warned = False\<rparr>"
    unfolding c2 l2 by simp
  from A B show ?thesis
    by (rule conjI)
qed

section \<open>indexer_vision.py: pages\<close>

definition CHROMA_BATCH_SIZE :: nat where
  "CHROMA_BATCH_SIZE = 100"

text \<open>\<open>\d\<close> below code point 256: the ASCII digits.\<close>

definition is_digit :: "char \<Rightarrow> bool" where
  "is_digit c = (let n = (of_char c :: nat) in 48 \<le> n \<and> n \<le> 57)"

text \<open>
  The pattern \<open>\n\n<!-- Page \d+ -->\n\n\<close> at the start of a string: the length of the
  match, if it matches there. The digits are followed by a space, so the greedy \<open>\d+\<close>
  takes all of them.
\<close>

definition match_page_marker :: "string \<Rightarrow> nat option" where
  \<open>match_page_marker s =
     (if take 12 s = ''\<newline>\<newline><!-- Page '' then
        (let digits = takeWhile is_digit (drop 12 s)
         in if digits \<noteq> [] \<and> take 6 (drop (12 + length digits) s) = '' -->\<newline>\<newline>''
            then Some (12 + length digits + 6)
            else None)
      else None)\<close>

text \<open>
  \<open>re.split\<close> on that pattern, with the piece read so far as first argument: the text
  is cut at every match, found from left to right. A match starts with the character
  \<open>c\<close>, so skipping it drops \<open>n - 1\<close> further characters.
\<close>

fun split_pages_from :: "string \<Rightarrow> string \<Rightarrow> string list" where
  "split_pages_from piece [] = [piece]"
| "split_pages_from piece (c # cs) =
     (case match_page_marker (c # cs) of
        Some n \<Rightarrow> piece # split_pages_from [] (drop (n - 1) cs)
      | None \<Rightarrow> split_pages_from (piece @ [c]) cs)"

definition split_pages :: "string \<Rightarrow> string list" where
  "split_pages content = split_pages_from [] content"

text \<open>
  \<open>s.replace(old, '')\<close>: the occurrences of \<open>old\<close> removed, from left to right.
\<close>

fun remove_sub :: "string \<Rightarrow> string \<Rightarrow> string" where
  "remove_sub old [] = []"
| "remove_sub old (c # cs) =
     (if old \<noteq> [] \<and> take (length old) (c # cs) = old
      then remove_sub old (drop (length old - 1) cs)
      else c # remove_sub old cs)"

text \<open>\<open>pdf_name\<close>, from the stem of the file name.\<close>

definition infer_pdf_name :: "string \<Rightarrow> string" where
  "infer_pdf_name stem = remove_sub ''_vision_processed'' stem"

section \<open>indexer_vision.py: parsing a page\<close>

text \<open>
  \<open>re.search(r'(.*?)(?=\n#### |\Z)', page_content, re.DOTALL)\<close> matches at the start
  of the page, and its group is the text before the first \<open>\n#### \<close>, or the whole
  page when there is none.
\<close>

definition before_heading :: "string \<Rightarrow> string" where
  \<open>before_heading s =
     (case find_sub ''\<newline>#### '' s of None \<Rightarrow> s | Some i \<Rightarrow> take i s)\<close>

text \<open>
  The pattern \<open>\n#### HEADING\s*\n(.*?)(?=\n#### |\Z)\<close> with \<open>re.IGNORECASE\<close> at the
  start of a string. The heading is compared without regard to case. The greedy \<open>\s*\<close>
  and the \<open>\n\<close> after it take the whitespace after the heading up to its last line
  feed; without a line feed there the pattern does not match here. The group is what
  follows, up to the next \<open>\n#### \<close> or the end.
\<close>

definition match_heading :: "string \<Rightarrow> string \<Rightarrow> string option" where
  \<open>match_heading heading_text s =
     (let n = 6 + length heading_text
      in if lower (take n s) = lower (''\<newline>#### '' @ heading_text) then
           (let rest = drop n s;
                space = takeWhile isspace rest
            in case rfind_char (CHR ''\<newline>'') space of
                 None \<Rightarrow> None
               | Some last_newline \<Rightarrow> Some (before_heading (drop (last_newline + 1) rest)))
         else None)\<close>

text \<open>\<open>re.search\<close> with that pattern: the group of the leftmost match.\<close>

fun search_heading :: "string \<Rightarrow> string \<Rightarrow> string option" where
  "search_heading heading_text [] = None"
| "search_heading heading_text (c # cs) =
     (case match_heading heading_text (c # cs) of
        Some g \<Rightarrow> Some g
      | None \<Rightarrow> search_heading heading_text cs)"

record page_data =
  main_text :: string
  visual :: string
  table :: string
  equation :: string

definition description :: "string \<Rightarrow> string \<Rightarrow> string" where
  "description heading_text page_content =
     (case search_heading heading_text page_content of None \<Rightarrow> [] | Some g \<Rightarrow> strip g)"

definition parse_vision_markdown_page :: "string \<Rightarrow> page_data" where
  "parse_vision_markdown_page page_content =
     \<lparr>main_text = strip (before_heading page_content),
      visual = description ''Visual Elements Description'' page_content,
      table = description ''Table Content'' page_content,
      equation = description ''Key Equations'' page_content\<rparr>"


section \<open>indexer_vision.py: one file\<close>

text \<open>
  \<open>pdf_name in page_content.splitlines()[0] if page_content else False\<close>. A non-empty
  text has a first line (\<open>splitlines_nonempty\<close> below), so the index is never out of
  range.
\<close>

definition is_initial_chunk :: "string \<Rightarrow> string \<Rightarrow> bool" where
  "is_initial_chunk pdf_name page_content =
     (if page_content \<noteq> [] then
        (case splitlines page_content of
           [] \<Rightarrow> False
         | first_line # _ \<Rightarrow> find_sub pdf_name first_line \<noteq> None)
      else False)"

text \<open>
  The loop \<open>for page_content in pages\<close>, with \<open>current_page_num\<close> as argument: the
  entries \<open>(main_text, page_num_for_meta, descriptions)\<close> of \<open>page_data_list\<close>.
\<close>

fun page_data_list :: "string \<Rightarrow> nat \<Rightarrow> string list \<Rightarrow> (string \<times> nat \<times> page_data) list" where
  "page_data_list pdf_name current_page_num [] = []"
| "page_data_list pdf_name current_page_num (page_content # pages) =
     (if strip page_content \<noteq> [] then
        (let current_page_num' =
               (if \<not> is_initial_chunk pdf_name page_content then current_page_num + 1
                else current_page_num);
             page_num_for_meta = (if current_page_num' > 0 then current_page_num' else 1);
             parsed_data = parse_vision_markdown_page page_content
         in (if main_text parsed_data \<noteq> []
             then [(main_text parsed_data, page_num_for_meta, parsed_data)] else [])
            @ page_data_list pdf_name current_page_num' pages)
      else page_data_list pdf_name current_page_num pages)"

text \<open>
  The same loop, recording for every non-blank segment the \<open>page_num_for_meta\<close> it is
  given, whether or not the segment goes into \<open>page_data_list\<close>.
\<close>

fun page_numbers :: "string \<Rightarrow> nat \<Rightarrow> string list \<Rightarrow> (string \<times> nat) list" where
  "page_numbers pdf_name current_page_num [] = []"
| "page_numbers pdf_name current_page_num (page_content # pages) =
     (if strip page_content \<noteq> [] then
        (let current_page_num' =
               (if \<not> is_initial_chunk pdf_name page_content then current_page_num + 1
                else current_page_num);
             page_num_for_meta = (if current_page_num' > 0 then current_page_num' else 1)
         in (page_content, page_num_for_meta) # page_numbers pdf_name current_page_num' pages)
      else page_numbers pdf_name current_page_num pages)"

text \<open>
  The loop over \<open>page_data_list\<close>: the chunks of every page with their metadata. The
  result is \<open>None\<close> if the splitter does not return.
\<close>

fun chunks_for_file ::
  "string \<Rightarrow> (string \<times> nat \<times> page_data) list \<Rightarrow> (string \<times> metadata) list option" where
  "chunks_for_file pdf_name [] = Some []"
| "chunks_for_file pdf_name ((text_to_chunk, page_num, descriptions) # rest) =
     (case recursive_character_text_splitter text_to_chunk CHUNK_SIZE CHUNK_OVERLAP of
        None \<Rightarrow> None
      | Some chunks \<Rightarrow>
          (case chunks_for_file pdf_name rest of
             None \<Rightarrow> None
           | Some others \<Rightarrow>
               Some (map (\<lambda>chunk_text.
                        (chunk_text,
                         \<lparr>source_file = Some pdf_name, source_page = Some page_num,
                          visual_descriptions = Some (visual descriptions),
                          table_descriptions = Some (table descriptions),
                          equation_descriptions = Some (equation descriptions)\<rparr>)) chunks
                     @ others)))"

text \<open>\<open>[xs[i : i + n] for i in range(0, len(xs), n)]\<close>.\<close>

fun batches_of :: "nat \<Rightarrow> 'a list \<Rightarrow> 'a list list" where
  "batches_of n xs = (if n = 0 \<or> xs = [] then [] else take n xs # batches_of n (drop n xs))"

declare batches_of.simps [simp del]

text \<open>
  The loop over \<open>embedding_results\<close>: it stops at the first failed batch. The result is
  \<open>successful_embedding\<close> and \<open>all_embeddings_for_file\<close>.
\<close>

fun combine_embeddings :: "embedding list option list \<Rightarrow> embedding list \<Rightarrow> bool \<times> embedding list" where
  "combine_embeddings [] all_embeddings = (True, all_embeddings)"
| "combine_embeddings (None # rest) all_embeddings = (False, all_embeddings)"
| "combine_embeddings (Some batch_embeddings # rest) all_embeddings =
     combine_embeddings rest (all_embeddings @ batch_embeddings)"

text \<open>
  One Markdown file and the part of the outside world its task meets: the stem of its
  name, what reading it returns (\<open>None\<close> when that raises), what the embedding call of
  its \<open>i\<close>-th batch returns (\<open>None\<close> when it raises), and the identifier \<open>uuid4\<close> gives
  to its \<open>i\<close>-th chunk.
\<close>

record md_file =
  stem :: string
  content :: "string option"
  embed_batch :: "nat \<Rightarrow> string list \<Rightarrow> embedding list option"
  uuid4 :: "nat \<Rightarrow> string"

text \<open>A vector record: identifier, embedding, chunk text, metadata.\<close>

type_synonym vector_record = "string \<times> embedding \<times> string \<times> metadata"

text \<open>\<open>all_chunks_for_file\<close> with the metadata, for a file that could be read.\<close>

definition file_chunks :: "md_file \<Rightarrow> string \<Rightarrow> (string \<times> metadata) list option" where
  "file_chunks f file_text =
     (let pdf_name = infer_pdf_name (stem f)
      in chunks_for_file pdf_name (page_data_list pdf_name 0 (split_pages file_text)))"

text \<open>
  The embedding calls of the batches, in the order of the batches (\<open>asyncio.gather\<close>
  returns the results in the order of its tasks).
\<close>

definition embedding_results :: "md_file \<Rightarrow> string list \<Rightarrow> embedding list option list" where
  "embedding_results f all_chunks =
     (let batch_list = batches_of CHROMA_BATCH_SIZE all_chunks
      in map (\<lambda>(i, batch_texts). embed_batch f i batch_texts) (zip [0..<length batch_list] batch_list))"

text \<open>
  \<open>process_md_file_async\<close>: the records of the file; none when the file cannot be
  read, when it has no chunk, when a batch failed or when the embeddings do not match
  the chunks in number.
\<close>

definition process_md_file_async :: "md_file \<Rightarrow> vector_record list option" where
  "process_md_file_async f =
     (case content f of
        None \<Rightarrow> Some []
      | Some file_text \<Rightarrow>
          (case file_chunks f file_text of
             None \<Rightarrow> None
           | Some chunks_with_metadata \<Rightarrow>
               (let all_chunks = map fst chunks_with_metadata;
                    all_metadata = map snd chunks_with_metadata
                in if all_chunks = [] then Some []
                   else
                     (case combine_embeddings (embedding_results f all_chunks) [] of
                        (successful_embedding, all_embeddings) \<Rightarrow>
                          if successful_embedding \<and> length all_embeddings = length all_chunks
                          then Some (map (\<lambda>i. (uuid4 f i, all_embeddings ! i, all_chunks ! i,
                                               all_metadata ! i))
                                       [0..<length all_chunks])
                          else Some []))))"

text \<open>
  Steps 4 to 6 of the indexer's \<open>main_async\<close>: the records of all files, file after
  file, as they are handed to the vector collection.
\<close>

fun collect_records :: "md_file list \<Rightarrow> vector_record list option" where
  "collect_records [] = Some []"
| "collect_records (f # fs) =
     (case process_md_file_async f of
        None \<Rightarrow> None
      | Some file_results \<Rightarrow>
          (case collect_records fs of
             None \<Rightarrow> None
           | Some others \<Rightarrow> Some (file_results @ others)))"

text \<open>A file \<open>lec1_vision_processed.md\<close> with a given text and a given embedding service.\<close>

definition sample_file :: "string \<Rightarrow> (nat \<Rightarrow> string list \<Rightarrow> embedding list option) \<Rightarrow> md_file" where
  "sample_file file_text embed_call =
     \<lparr>stem = ''lec1_vision_processed'', content = Some file_text, embed_batch = embed_call,
      uuid4 = (\<lambda>i. ''id'' @ str_nat i)\<rparr>"

section \<open>The indexer: lemmas\<close>

lemma splitter_default_total:
  "\<exists>chunks. recursive_character_text_splitter t CHUNK_SIZE CHUNK_OVERLAP = Some chunks"
proof (cases "length t \<le> 1000")
  case True
  then show ?thesis
    by (simp add: recursive_character_text_splitter_def CHUNK_SIZE_def)
next
  case False
  then have "1000 < length t"
    by simp
  then show ?thesis
    by (simp add: splitter_default_long)
qed

lemma chunks_for_file_total: "\<exists>cm. chunks_for_file pdf_name pd = Some cm"
proof (induction pd)
  case Nil
  show ?case by simp
next
  case (Cons p pd)
  obtain text_to_chunk page_num descriptions where p: "p = (text_to_chunk, page_num, descriptions)"
    by (cases p)
  obtain chunks where c: "recursive_character_text_splitter text_to_chunk CHUNK_SIZE CHUNK_OVERLAP = Some chunks"
    using splitter_default_total by blast
  from Cons obtain cm where "chunks_for_file pdf_name pd = Some cm"
    by blast
  with p c show ?case
    by simp
qed

lemma file_chunks_total: "\<exists>cm. file_chunks f file_text = Some cm"
  by (simp add: file_chunks_def Let_def chunks_for_file_total)

text \<open>The number of embeddings the batches returned.\<close>

definition total_embeddings :: "embedding list option list \<Rightarrow> nat" where
  "total_embeddings results =
     sum_list (map (\<lambda>r. case r of None \<Rightarrow> 0 | Some batch_embeddings \<Rightarrow> length batch_embeddings) results)"

lemma combine_embeddings_failed:
  "None \<in> set results \<Longrightarrow> fst (combine_embeddings results acc) = False"
  by (induction results acc rule: combine_embeddings.induct) auto

lemma combine_embeddings_all:
  "None \<notin> set results \<Longrightarrow>
     fst (combine_embeddings results acc) = True \<and>
     length (snd (combine_embeddings results acc)) = length acc + total_embeddings results"
  by (induction results acc rule: combine_embeddings.induct) (auto simp: total_embeddings_def)

lemma collect_records_skip:
  assumes "process_md_file_async f = Some []"
  shows "collect_records (before @ f # after) = collect_records (before @ after)"
proof (induction before)
  case Nil
  from assms show ?case
    by (simp split: option.split)
next
  case (Cons g before)
  then show ?case
    by (simp split: option.split)
qed

lemma process_discards:
  assumes "content f = Some file_text"
    and "file_chunks f file_text = Some cm"
    and "None \<in> set (embedding_results f (map fst cm)) \<or>
         total_embeddings (embedding_results f (map fst cm)) \<noteq> length cm"
  shows "process_md_file_async f = Some []"
proof (cases "None \<in> set (embedding_results f (map fst cm))")
  case True
  then have "fst (combine_embeddings (embedding_results f (map fst cm)) []) = False"
    by (rule combine_embeddings_failed)
  with assms(1,2) show ?thesis
    by (auto simp: process_md_file_async_def Let_def split: prod.split)
next
  case False
  with assms(3) have ne: "total_embeddings (embedding_results f (map fst cm)) \<noteq> length cm"
    by blast
  from combine_embeddings_all [OF False, of "[]"]
  have "length (snd (combine_embeddings (embedding_results f (map fst cm)) [])) =
        total_embeddings (embedding_results f (map fst cm))"
    by simp
  with ne assms(1,2) show ?thesis
    by (auto simp: process_md_file_async_def Let_def split: prod.split)
qed

definition failing_embed :: "nat \<Rightarrow> string list \<Rightarrow> embedding list option" where
  "failing_embed i batch_texts = None"

definition working_embed :: "nat \<Rightarrow> string list \<Rightarrow> embedding list option" where
  "working_embed i batch_texts = Some (map (\<lambda>t. [1]) batch_texts)"

lemma sample_file_chunks:
  "file_chunks (sample_file ''first page'' e) ''first page'' =
     Some [(''first page'',
            \<lparr>source_file = Some ''lec1'', source_page = Some 1, visual_descriptions = Some [],
             table_descriptions = Some [], equation_descriptions = Some []\<rparr>)]"
  by code_simp

lemma sample_good_records:
  "process_md_file_async (sample_file ''first page'' working_embed) =
     Some [(''id0'', [1], ''first page'',
            \<lparr>source_file = Some ''lec1'', source_page = Some 1, visual_descriptions = Some [],
             table_descriptions = Some [], equation_descriptions = Some []\<rparr>)]"
  by code_simp

section \<open>The indexer: claims\<close>

text \<open>
  C5: a file one of whose embedding batches failed, or whose batches returned in total
  another number of embeddings than it has chunks, contributes no record; and the
  records of the run are those the run has without that file, whatever files come
  before and after it.
\<close>

theorem failed_embedding_discards_file:
  assumes "content f = Some file_text"
    and "file_chunks f file_text = Some cm"
    and "None \<in> set (embedding_results f (map fst cm)) \<or>
         total_embeddings (embedding_results f (map fst cm)) \<noteq> length cm"
  shows "process_md_file_async f = Some [] \<and>
         collect_records (before @ f # after) = collect_records (before @ after)"
proof -
  from assms have "process_md_file_async f = Some []"
    by (rule process_discards)
  then show ?thesis
    by (simp add: collect_records_skip)
qed

theorem failed_embedding_discards_file_witness:
  "process_md_file_async (sample_file ''first page'' failing_embed) = Some [] \<and>
   collect_records [sample_file ''first page'' failing_embed, sample_file ''first page'' working_embed] =
     Some [(''id0'', [1], ''first page'',
            \<lparr>source_file = Some ''lec1'', source_page = Some 1, visual_descriptions = Some [],
             table_descriptions = Some [], equation_descriptions = Some []\<rparr>)]"
proof -
  let ?bad = "sample_file ''first page'' failing_embed"
  have c: "content ?bad = Some ''first page''"
    by (simp add: sample_file_def)
  have "embedding_results ?bad [''first page''] = [None]"
    by (simp add: embedding_results_def CHROMA_BATCH_SIZE_def batches_of.simps sample_file_def
          failing_embed_def)
  then have n: "None \<in> set (embedding_results ?bad (map fst [(''first page'',
            \<lparr>source_file = Some ''lec1'', source_page = Some 1, visual_descriptions = Some [],
             table_descriptions = Some [], equation_descriptions = Some []\<rparr>)])) \<or>
         total_embeddings (embedding_results ?bad (map fst [(''first page'',
            \<lparr>source_file = Some ''lec1'', source_page = Some 1, visual_descriptions = Some [],
             table_descriptions = Some [], equation_descriptions = Some []\<rparr>)])) \<noteq>
         length [(''first page'',
            \<lparr>source_file = Some ''lec1'', source_page = Some 1, visual_descriptions = Some [],
             table_descriptions = Some [], equation_descriptions = Some []\<rparr>)]"
    by simp
  from failed_embedding_discards_file [OF c sample_file_chunks n,
         of "[]" "[sample_file ''first page'' working_embed]"]
  show ?thesis
    by (simp add: sample_good_records)
qed

lemma page_numbers_step:
  "strip seg \<noteq> [] \<Longrightarrow>
     page_numbers pdf_name cur (seg # rest) =
       (seg, if is_initial_chunk pdf_name seg then (if cur > 0 then cur else 1) else cur + 1)
       # page_numbers pdf_name (if is_initial_chunk pdf_name seg then cur else cur + 1) rest"
  by (simp add: Let_def)

lemma page_numbers_blank:
  "strip seg = [] \<Longrightarrow> page_numbers pdf_name cur (seg # rest) = page_numbers pdf_name cur rest"
  by simp

lemma page_numbers_positive:
  "(seg, n) \<in> set (page_numbers pdf_name cur pages) \<Longrightarrow> 1 \<le> n"
  by (induction pages arbitrary: cur) (auto simp: Let_def split: if_splits)

lemma page_numbers_content:
  assumes "\<forall>s\<in>set pages. strip s \<noteq> [] \<longrightarrow> \<not> is_initial_chunk pdf_name s"
  shows "page_numbers pdf_name cur pages =
         zip (filter (\<lambda>s. strip s \<noteq> []) pages)
             [cur + 1..<cur + 1 + length (filter (\<lambda>s. strip s \<noteq> []) pages)]"
  using assms
proof (induction pages arbitrary: cur)
  case Nil
  show ?case by simp
next
  case (Cons s pages)
  then have ih: "page_numbers pdf_name c pages =
         zip (filter (\<lambda>s. strip s \<noteq> []) pages)
             [c + 1..<c + 1 + length (filter (\<lambda>s. strip s \<noteq> []) pages)]" for c
    by simp
  show ?case
  proof (cases "strip s = []")
    case True
    then show ?thesis
      by (simp add: ih)
  next
    case False
    with Cons.prems have ni: "\<not> is_initial_chunk pdf_name s"
      by simp
    let ?m = "length (filter (\<lambda>s. strip s \<noteq> []) pages)"
    have "[cur + 1..<cur + 1 + Suc ?m] = (cur + 1) # [Suc (cur + 1)..<cur + 1 + Suc ?m]"
      by (rule upt_conv_Cons) simp
    then have u: "[cur + 1..<cur + 1 + Suc ?m] = (cur + 1) # [Suc cur + 1..<Suc cur + 1 + ?m]"
      by simp
    from False ni have "page_numbers pdf_name cur (s # pages) =
        (s, cur + 1) # page_numbers pdf_name (Suc cur) pages"
      by (simp add: Let_def)
    also have "\<dots> = (s, cur + 1) # zip (filter (\<lambda>s. strip s \<noteq> []) pages)
                                      [Suc cur + 1..<Suc cur + 1 + ?m]"
      by (simp only: ih)
    also have "\<dots> = zip (s # filter (\<lambda>s. strip s \<noteq> []) pages) [cur + 1..<cur + 1 + Suc ?m]"
      by (simp only: u zip_Cons_Cons)
    finally show ?thesis
      using False by simp
  qed
qed

lemma page_data_list_numbers:
  "page_data_list pdf_name cur pages =
     map (\<lambda>(s, n). (main_text (parse_vision_markdown_page s), n, parse_vision_markdown_page s))
       (filter (\<lambda>(s, n). main_text (parse_vision_markdown_page s) \<noteq> [])
          (page_numbers pdf_name cur pages))"
  by (induction pages arbitrary: cur) (simp_all add: Let_def)

text \<open>
  What the loop gives a file whose first segment is the title when the document name
  occurs in the first line of no later non-blank segment: the \<open>k\<close>-th later non-blank
  segment has the page number \<open>k\<close>.
\<close>

lemma page_numbers_after_title:
  assumes "strip title \<noteq> []" and "is_initial_chunk pdf_name title"
    and "\<forall>s\<in>set rest. strip s \<noteq> [] \<longrightarrow> \<not> is_initial_chunk pdf_name s"
  shows "page_numbers pdf_name 0 (title # rest) =
        (title, 1) # zip (filter (\<lambda>s. strip s \<noteq> []) rest)
                         [1..<1 + length (filter (\<lambda>s. strip s \<noteq> []) rest)]"
proof -
  from assms(3) have "page_numbers pdf_name 0 rest =
         zip (filter (\<lambda>s. strip s \<noteq> []) rest)
             [0 + 1..<0 + 1 + length (filter (\<lambda>s. strip s \<noteq> []) rest)]"
    by (rule page_numbers_content)
  with assms(1,2) show ?thesis
    by (simp add: page_numbers_step)
qed

text \<open>
  C2: the claim is what the comments of the loop say (the first split part is the
  title, "the actual page content starts from index 1", the counter is incremented "for
  actual page content"), and the code departs from it. The test \<open>is_initial_chunk\<close> is
  made for every non-blank segment, not for the first one only. In the file
  \<open>lec1_vision_processed.md\<close> below, the first segment is the title and page 1 begins
  with the document name; page 1 is taken for the title chunk and gets no increment,
  so page 2, the second content segment, is given the page number 1 where the claim
  says 2.
\<close>

theorem title_test_on_later_segment:
  \<open>split_pages ''# lec1 notes\<newline>\<newline><!-- Page 1 -->\<newline>\<newline>lec1 intro\<newline>\<newline><!-- Page 2 -->\<newline>\<newline>second'' =
     [''# lec1 notes'', ''lec1 intro'', ''second''] \<and>
   infer_pdf_name ''lec1_vision_processed'' = ''lec1'' \<and>
   is_initial_chunk ''lec1'' ''# lec1 notes'' \<and>
   page_numbers ''lec1'' 0 [''# lec1 notes'', ''lec1 intro'', ''second''] =
     [(''# lec1 notes'', 1), (''lec1 intro'', 1), (''second'', 1)]\<close>
  by code_simp

section \<open>The indexer: the texts handed to the splitter\<close>

text \<open>The main text of a page, and the rules that evaluate the page loop on a given file.\<close>

lemma main_text_parse: "main_text (parse_vision_markdown_page s) = strip (before_heading s)"
  by (simp add: parse_vision_markdown_page_def)

lemmas page_eval =
  main_text_parse before_heading_def strip_def isspace_def is_initial_chunk_def splitlines_def
  is_linebreak_def Let_def

lemma strip_ends:
  assumes "strip s \<noteq> []"
  shows "\<not> isspace (hd (strip s)) \<and> \<not> isspace (last (strip s))"
proof -
  let ?d = "dropWhile isspace s"
  let ?e = "dropWhile isspace (rev ?d)"
  have s: "strip s = rev ?e"
    by (simp add: strip_def)
  with assms have e: "?e \<noteq> []"
    by simp
  then have hd_e: "\<not> isspace (hd ?e)"
    by (rule hd_dropWhile)
  from e have d: "?d \<noteq> []"
  proof (rule contrapos_nn)
    assume "?d = []"
    then show "?e = []"
      by (simp only: rev.simps(1) dropWhile.simps(1))
  qed
  then have hd_d: "\<not> isspace (hd ?d)"
    by (rule hd_dropWhile)
  have "?d = rev ?e @ rev (takeWhile isspace (rev ?d))"
    by (rule rev_dropWhile_takeWhile [symmetric])
  with e have "hd ?d = hd (rev ?e)"
    by (metis hd_append2 rev_is_Nil_conv)
  with hd_d hd_e e s show ?thesis
    by (simp add: last_rev)
qed

lemma strip_idem: "strip (strip s) = strip s"
proof (cases "strip s = []")
  case True
  have "strip [] = []"
    by (simp add: strip_def)
  with True show ?thesis
    by simp
next
  case False
  from strip_ends [OF False]
  have h: "\<not> isspace (hd (strip s))" and l: "\<not> isspace (last (strip s))"
    by simp_all
  from False h have a: "dropWhile isspace (strip s) = strip s"
    by (cases "strip s") auto
  from False l have "\<not> isspace (hd (rev (strip s)))"
    by (simp add: hd_rev)
  with False have b: "dropWhile isspace (rev (strip s)) = rev (strip s)"
    by (cases "rev (strip s)") auto
  have "strip (strip s) = rev (dropWhile isspace (rev (dropWhile isspace (strip s))))"
    by (simp only: strip_def [of "strip s"])
  also have "\<dots> = strip s"
    by (simp only: a b rev_rev_ident)
  finally show ?thesis .
qed

lemma page_data_list_texts:
  "(text_to_chunk, page_num, descriptions) \<in> set (page_data_list pdf_name cur pages) \<Longrightarrow>
     text_to_chunk \<noteq> [] \<and> (\<exists>seg. text_to_chunk = strip (before_heading seg))"
proof (induction pages arbitrary: cur)
  case Nil
  then show ?case by simp
next
  case (Cons seg pages)
  then show ?case
    by (auto simp: Let_def parse_vision_markdown_page_def split: if_splits)
qed

text \<open>
  C4: every text the indexer hands to the splitter is a page's main text, which is
  non-empty and already trimmed. If such a text has at most 1000 characters, the
  splitter returns exactly one chunk, the trimmed input. In every case it returns the
  windows it visits without those that are empty after trimming, so no chunk of its
  output is empty after trimming.
\<close>

theorem splitter_on_page_text:
  assumes "(text_to_chunk, page_num, descriptions) \<in> set (page_data_list pdf_name cur pages)"
  shows "text_to_chunk \<noteq> [] \<and> strip text_to_chunk = text_to_chunk \<and>
         (length text_to_chunk \<le> 1000 \<longrightarrow>
            recursive_character_text_splitter text_to_chunk CHUNK_SIZE CHUNK_OVERLAP =
              Some [strip text_to_chunk]) \<and>
         (\<exists>chunks. recursive_character_text_splitter text_to_chunk CHUNK_SIZE CHUNK_OVERLAP = Some chunks \<and>
            chunks = filter (\<lambda>chunk. strip chunk \<noteq> [])
                       (if length text_to_chunk \<le> 1000 then [text_to_chunk]
                        else windows_from text_to_chunk 0) \<and>
            (\<forall>chunk\<in>set chunks. strip chunk \<noteq> []))"
proof -
  from page_data_list_texts [OF assms]
  obtain seg where ne: "text_to_chunk \<noteq> []" and t: "text_to_chunk = strip (before_heading seg)"
    by blast
  from t have st: "strip text_to_chunk = text_to_chunk"
    by (simp add: strip_idem)
  show ?thesis
  proof (cases "length text_to_chunk \<le> 1000")
    case True
    then have "recursive_character_text_splitter text_to_chunk CHUNK_SIZE CHUNK_OVERLAP =
        Some [text_to_chunk]"
      by (simp add: recursive_character_text_splitter_def CHUNK_SIZE_def)
    with True ne st show ?thesis
      by simp
  next
    case False
    then have "1000 < length text_to_chunk"
      by simp
    then have "recursive_character_text_splitter text_to_chunk CHUNK_SIZE CHUNK_OVERLAP =
        Some (filter (\<lambda>chunk. strip chunk \<noteq> []) (windows_from text_to_chunk 0))"
      by (rule splitter_default_long)
    with False ne st show ?thesis
      by simp
  qed
qed

theorem splitter_on_page_text_witness:
  "recursive_character_text_splitter ''hello'' CHUNK_SIZE CHUNK_OVERLAP = Some [''hello''] \<and>
   strip ''hello'' = ''hello''"
proof -
  have "(''hello'', 1, parse_vision_markdown_page '' hello '') \<in>
          set (page_data_list ''lec1'' 0 ['' hello ''])"
    by (simp add: page_eval)
  from splitter_on_page_text [OF this] show ?thesis
    by simp
qed

section \<open>The indexer: pages without main text\<close>

lemma splitlines_from_head:
  "s \<noteq> [] \<or> line \<noteq> [] \<Longrightarrow>
     \<exists>ls. splitlines_from line s = (line @ takeWhile (\<lambda>c. \<not> is_linebreak c) s) # ls"
proof (induction line s rule: splitlines_from.induct)
  case (1 line)
  then show ?case by simp
next
  case (2 line c)
  then show ?case by simp
next
  case (3 line c d cs)
  have cr: "is_linebreak (CHR 0x0D)"
    by (simp add: is_linebreak_def)
  show ?case
  proof (cases "c = CHR 0x0D \<and> d = CHR 0x0A")
    case True
    with cr show ?thesis by simp
  next
    case False
    note not_crlf = False
    show ?thesis
    proof (cases "is_linebreak c")
      case True
      with not_crlf show ?thesis by simp
    next
      case False
      have "\<exists>ls. splitlines_from (line @ [c]) (d # cs) =
          ((line @ [c]) @ takeWhile (\<lambda>c. \<not> is_linebreak c) (d # cs)) # ls"
        by (rule "3.IH"(3) [OF not_crlf False]) simp
      then obtain ls where "splitlines_from (line @ [c]) (d # cs) =
          ((line @ [c]) @ takeWhile (\<lambda>c. \<not> is_linebreak c) (d # cs)) # ls"
        by blast
      moreover have "splitlines_from line (c # d # cs) = splitlines_from (line @ [c]) (d # cs)"
        using not_crlf False by auto
      moreover have "takeWhile (\<lambda>c. \<not> is_linebreak c) (c # d # cs) =
          c # takeWhile (\<lambda>c. \<not> is_linebreak c) (d # cs)"
        using False by simp
      ultimately have "splitlines_from line (c # d # cs) =
          (line @ takeWhile (\<lambda>c. \<not> is_linebreak c) (c # d # cs)) # ls"
        by (simp only: append_assoc append_Cons append_Nil)
      then show ?thesis
        by blast
    qed
  qed
qed

lemma splitlines_nonempty:
  "s \<noteq> [] \<Longrightarrow> \<exists>ls. splitlines s = takeWhile (\<lambda>c. \<not> is_linebreak c) s # ls"
  using splitlines_from_head [of s "[]"] by (simp add: splitlines_def)

lemma find_sub_Some: "find_sub pat s = Some i \<Longrightarrow> take (length pat) (drop i s) = pat"
proof (induction s arbitrary: i)
  case Nil
  then show ?case by (simp split: if_splits)
next
  case (Cons c cs)
  show ?case
  proof (cases "take (length pat) (c # cs) = pat")
    case True
    with Cons.prems show ?thesis by simp
  next
    case False
    with Cons.prems obtain j where "find_sub pat cs = Some j" "i = Suc j"
      by auto
    with Cons.IH show ?thesis by simp
  qed
qed

lemma find_sub_set: "find_sub pat s = Some i \<Longrightarrow> set pat \<subseteq> set s"
proof -
  assume "find_sub pat s = Some i"
  then have "pat = take (length pat) (drop i s)"
    by (simp add: find_sub_Some)
  then have "set pat \<subseteq> set (drop i s)"
    by (metis set_take_subset)
  then show ?thesis
    using set_drop_subset by fastforce
qed

lemma takeWhile_before:
  "\<not> P c \<Longrightarrow> set (takeWhile P (xs @ c # ys)) \<subseteq> set xs"
  by (induction xs) auto

lemma first_line_before_heading:
  "set (takeWhile (\<lambda>c. \<not> is_linebreak c) s) \<subseteq> set (before_heading s)"
proof (cases "find_sub ''\<newline>#### '' s")
  case None
  then show ?thesis
    by (auto simp: before_heading_def dest: set_takeWhileD)
next
  case (Some i)
  from find_sub_Some [OF Some] obtain r where "drop i s = CHR ''\<newline>'' # r"
    by (cases "drop i s") auto
  then have s: "s = take i s @ CHR ''\<newline>'' # r"
    by (metis append_take_drop_id)
  have "is_linebreak (CHR ''\<newline>'')"
    by (simp add: is_linebreak_def)
  then have "set (takeWhile (\<lambda>c. \<not> is_linebreak c) (take i s @ CHR ''\<newline>'' # r)) \<subseteq> set (take i s)"
    by (intro takeWhile_before) simp
  with s Some show ?thesis
    by (simp add: before_heading_def)
qed

lemma initial_chunk_of_blank_start:
  assumes "main_text (parse_vision_markdown_page seg) = []"
    and "is_initial_chunk pdf_name seg"
  shows "\<forall>c\<in>set pdf_name. isspace c"
proof -
  from assms(1) have blank: "\<forall>c\<in>set (before_heading seg). isspace c"
    by (simp add: parse_vision_markdown_page_def strip_eq_Nil_iff)
  from assms(2) have ne: "seg \<noteq> []"
    by (auto simp: is_initial_chunk_def)
  then obtain ls where sl: "splitlines seg = takeWhile (\<lambda>c. \<not> is_linebreak c) seg # ls"
    using splitlines_nonempty by blast
  with assms(2) ne obtain i where "find_sub pdf_name (takeWhile (\<lambda>c. \<not> is_linebreak c) seg) = Some i"
    by (auto simp: is_initial_chunk_def)
  then have "set pdf_name \<subseteq> set (takeWhile (\<lambda>c. \<not> is_linebreak c) seg)"
    by (rule find_sub_set)
  with first_line_before_heading [of seg] blank show ?thesis
    by blast
qed

lemma empty_main_text_shape:
  assumes "strip seg \<noteq> []" and "main_text (parse_vision_markdown_page seg) = []"
  shows "\<exists>i. find_sub ''\<newline>#### '' seg = Some i \<and> (\<forall>c\<in>set (take i seg). isspace c)"
proof (cases "find_sub ''\<newline>#### '' seg")
  case None
  with assms show ?thesis
    by (simp add: parse_vision_markdown_page_def before_heading_def)
next
  case (Some i)
  with assms(2) show ?thesis
    by (simp add: parse_vision_markdown_page_def before_heading_def strip_eq_Nil_iff)
qed

lemma page_data_list_empty_main_text:
  assumes "strip seg \<noteq> []" and "main_text (parse_vision_markdown_page seg) = []"
  shows "page_data_list pdf_name cur (seg # rest) =
         page_data_list pdf_name (if is_initial_chunk pdf_name seg then cur else cur + 1) rest"
  using assms by (simp add: Let_def)

text \<open>
  A non-blank segment whose parsed main text is empty begins with whitespace up to a
  \<open>\n#### \<close>. It adds no entry to \<open>page_data_list\<close>, so no chunk and no record comes
  from it, and its descriptions are not indexed. It is taken for the title chunk only
  if the document name consists of whitespace; for every other document name the
  counter is incremented by one.
\<close>

lemma empty_main_text_page:
  assumes "strip seg \<noteq> []" and "main_text (parse_vision_markdown_page seg) = []"
  shows "(\<exists>i. find_sub ''\<newline>#### '' seg = Some i \<and> (\<forall>c\<in>set (take i seg). isspace c)) \<and>
         page_data_list pdf_name cur (seg # rest) =
           page_data_list pdf_name (if is_initial_chunk pdf_name seg then cur else cur + 1) rest \<and>
         chunks_for_file pdf_name (page_data_list pdf_name cur [seg]) = Some [] \<and>
         (is_initial_chunk pdf_name seg \<longrightarrow> (\<forall>c\<in>set pdf_name. isspace c)) \<and>
         ((\<exists>c\<in>set pdf_name. \<not> isspace c) \<longrightarrow>
            page_data_list pdf_name cur (seg # rest) = page_data_list pdf_name (cur + 1) rest)"
proof -
  note step = page_data_list_empty_main_text [OF assms]
  have init: "is_initial_chunk pdf_name seg \<longrightarrow> (\<forall>c\<in>set pdf_name. isspace c)"
    using initial_chunk_of_blank_start [OF assms(2)] by blast
  have "chunks_for_file pdf_name (page_data_list pdf_name cur [seg]) = Some []"
    by (simp only: page_data_list_empty_main_text [OF assms] page_data_list.simps(1)
          chunks_for_file.simps(1))
  moreover have "(\<exists>c\<in>set pdf_name. \<not> isspace c) \<longrightarrow>
            page_data_list pdf_name cur (seg # rest) = page_data_list pdf_name (cur + 1) rest"
  proof
    assume "\<exists>c\<in>set pdf_name. \<not> isspace c"
    with init have "\<not> is_initial_chunk pdf_name seg"
      by blast
    with step show "page_data_list pdf_name cur (seg # rest) = page_data_list pdf_name (cur + 1) rest"
      by (simp only: if_False)
  qed
  ultimately show ?thesis
    using empty_main_text_shape [OF assms] step init by blast
qed

text \<open>
  The page of three description headings and their bodies: when the segment begins with
  the first heading, no line feed precedes that heading, the search for the main text
  runs on to the second heading, and the page is indexed with the first heading and
  its body as text.
\<close>

lemma headings_only_page_is_indexed:
  \<open>map (\<lambda>(t, n, d). (t, n)) (page_data_list ''lec1'' 0
     [''#### Visual Elements Description\<newline>v\<newline>#### Table Content\<newline>t\<newline>#### Key Equations\<newline>e'']) =
   [(''#### Visual Elements Description\<newline>v'', 1)]\<close>
  by (simp add: page_eval)

text \<open>
  C10: the claim is what the loop is written to do (a page that is not the title chunk is
  counted, "Increment for actual page content", whether or not it has a main text), and
  it holds for every document name that is not blank (the lemma \<open>empty_main_text_page\<close>).
  The code departs from it through the title test, which is made for this page too. The
  file \<open>_vision_processed.md\<close> has the empty document name, which occurs in every first
  line: its page 1 has an empty main text, gives no entry and consumes no increment, and
  page 2 is given the number 1. With the document name \<open>" "\<close> the segment before the page
  is counted, the page with the empty main text is not, and the page after it is given
  the number 2 instead of 3.
\<close>

theorem empty_page_without_increment:
  \<open>infer_pdf_name ''_vision_processed'' = [] \<and>
   split_pages ''x\<newline>\<newline><!-- Page 1 -->\<newline>\<newline>\<newline>#### Key Equations\<newline>e\<newline>\<newline><!-- Page 2 -->\<newline>\<newline>second'' =
     [''x'', ''\<newline>#### Key Equations\<newline>e'', ''second''] \<and>
   strip ''\<newline>#### Key Equations\<newline>e'' \<noteq> [] \<and>
   main_text (parse_vision_markdown_page ''\<newline>#### Key Equations\<newline>e'') = [] \<and>
   is_initial_chunk [] ''\<newline>#### Key Equations\<newline>e'' \<and>
   page_numbers [] 0 [''x'', ''\<newline>#### Key Equations\<newline>e'', ''second''] =
     [(''x'', 1), (''\<newline>#### Key Equations\<newline>e'', 1), (''second'', 1)] \<and>
   map (\<lambda>(t, n, d). (t, n)) (page_data_list [] 0 [''x'', ''\<newline>#### Key Equations\<newline>e'', ''second'']) =
     [(''x'', 1), (''second'', 1)] \<and>
   main_text (parse_vision_markdown_page '' \<newline>#### Key Equations\<newline>e'') = [] \<and>
   page_numbers '' '' 0 [''x'', '' \<newline>#### Key Equations\<newline>e'', ''second''] =
     [(''x'', 1), ('' \<newline>#### Key Equations\<newline>e'', 1), (''second'', 2)]\<close>
proof -
  have name: \<open>infer_pdf_name ''_vision_processed'' = []\<close>
    by code_simp
  have pages: \<open>split_pages ''x\<newline>\<newline><!-- Page 1 -->\<newline>\<newline>\<newline>#### Key Equations\<newline>e\<newline>\<newline><!-- Page 2 -->\<newline>\<newline>second'' =
     [''x'', ''\<newline>#### Key Equations\<newline>e'', ''second'']\<close>
    by code_simp
  have loop: \<open>strip ''\<newline>#### Key Equations\<newline>e'' \<noteq> [] \<and>
   main_text (parse_vision_markdown_page ''\<newline>#### Key Equations\<newline>e'') = [] \<and>
   is_initial_chunk [] ''\<newline>#### Key Equations\<newline>e'' \<and>
   page_numbers [] 0 [''x'', ''\<newline>#### Key Equations\<newline>e'', ''second''] =
     [(''x'', 1), (''\<newline>#### Key Equations\<newline>e'', 1), (''second'', 1)] \<and>
   map (\<lambda>(t, n, d). (t, n)) (page_data_list [] 0 [''x'', ''\<newline>#### Key Equations\<newline>e'', ''second'']) =
     [(''x'', 1), (''second'', 1)] \<and>
   main_text (parse_vision_markdown_page '' \<newline>#### Key Equations\<newline>e'') = [] \<and>
   page_numbers '' '' 0 [''x'', '' \<newline>#### Key Equations\<newline>e'', ''second''] =
     [(''x'', 1), ('' \<newline>#### Key Equations\<newline>e'', 1), (''second'', 2)]\<close>
    by (simp add: page_eval)
  show ?thesis
    by (rule conjI [OF name conjI [OF pages loop]])
qed

end
